theory Spec2Isabelle
  imports Main "HOL-Library.Sublist" "HOL-Library.AList"
begin

section \<open>Strings\<close>

text \<open>
  A JavaScript string is modelled as a \<open>string\<close>: one \<open>char\<close> per code unit, for code
  units below 256. The model of \<open>convert.ts\<close> follows the source function by function;
  the functions of the Node.js runtime it calls (\<open>path\<close>, \<open>fs\<close>, \<open>String.prototype\<close>)
  are modelled from their documented behaviour on POSIX.
\<close>

text \<open>\<open>String.prototype.trim\<close> strips white space and line terminators; below 256 these
  are TAB, LF, VT, FF, CR, SP and NBSP.\<close>

definition isWhiteSpace :: "char \<Rightarrow> bool" where
  "isWhiteSpace c =
     (c \<in> set [CHR 0x09, CHR 0x0A, CHR 0x0B, CHR 0x0C, CHR 0x0D, CHR 0x20, CHR 0xA0])"

definition trim :: "string \<Rightarrow> string" where
  "trim s = rev (dropWhile isWhiteSpace (rev (dropWhile isWhiteSpace s)))"

text \<open>\<open>text.split("\n")\<close>: the pieces between line feeds; never the empty list.\<close>

fun split_nl :: "string \<Rightarrow> string list" where
  "split_nl [] = [[]]"
| "split_nl (c # cs) =
     (if c = CHR 0x0A then [] # split_nl cs
      else (case split_nl cs of [] \<Rightarrow> [[c]] | l # ls \<Rightarrow> (c # l) # ls))"

text \<open>\<open>Array.prototype.join\<close>.\<close>

fun join :: "string \<Rightarrow> string list \<Rightarrow> string" where
  "join sep [] = []"
| "join sep [l] = l"
| "join sep (l # ls) = l @ sep @ join sep ls"

text \<open>\<open>String.prototype.toLowerCase\<close> on the ASCII letters; every other code unit below
  256 that the dispatch compares against is left as it is.\<close>

definition toLowerChar :: "char \<Rightarrow> char" where
  "toLowerChar c =
     (case map_of (zip ''ABCDEFGHIJKLMNOPQRSTUVWXYZ'' ''abcdefghijklmnopqrstuvwxyz'') c of
        None \<Rightarrow> c
      | Some l \<Rightarrow> l)"

definition toLowerCase :: "string \<Rightarrow> string" where
  "toLowerCase s = map toLowerChar s"


section \<open>Paths\<close>

text \<open>
  \<open>inputPath\<close> and \<open>outputPath\<close> come out of \<open>path.resolve\<close>: absolute and normalised.
  Such a path is the list of its components, \<open>/a/b/c.doc\<close> being \<open>[''a'', ''b'', ''c.doc'']\<close>
  and \<open>/\<close> being \<open>[]\<close>. \<open>path.join dir name\<close> with a one-component name appends it,
  \<open>path.dirname\<close> drops the last component, and \<open>path.extname\<close> and
  \<open>path.basename\<close> look at the last component only.
\<close>

type_synonym path = "string list"

definition name_of :: "path \<Rightarrow> string" where
  "name_of p = (if p = [] then [] else last p)"

definition dirname :: "path \<Rightarrow> path" where
  "dirname p = butlast p"

definition path_join :: "path \<Rightarrow> string \<Rightarrow> path" where
  "path_join dir n = dir @ [n]"

text \<open>
  \<open>path.extname\<close> of one component: from the last dot to the end; empty when there is
  no dot, when the only dot is the first character, and for \<open>..\<close>.
\<close>

definition extname :: "string \<Rightarrow> string" where
  "extname n =
     (let after = rev (takeWhile (\<lambda>c. c \<noteq> CHR ''.'') (rev n));
          stem = take (length n - length after - 1) n
      in if length after = length n then []
         else if stem = [] then []
         else if n = ''..'' then []
         else CHR ''.'' # after)"

text \<open>\<open>path.basename name ext\<close> of one component: \<open>ext\<close> is cut off the end when the
  name ends with it; a name equal to \<open>ext\<close> gives the empty string.\<close>

definition basename :: "string \<Rightarrow> string \<Rightarrow> string" where
  "basename n ext =
     (if ext \<noteq> [] \<and> length ext \<le> length n then
        (if ext = n then []
         else if suffix ext n then take (length n - length ext) n
         else n)
      else n)"

text \<open>The \<open>Set\<close> of line 12.\<close>

definition supportedExtensions :: "string set" where
  "supportedExtensions = {''.docx'', ''.DOCX'', ''.doc'', ''.DOC'', ''.pdf'', ''.PDF''}"


section \<open>Errors, console lines, the file system\<close>

datatype reason = Signal string | ExitCode "int option"

datatype error =
    ENOENT | EEXIST | ENOTDIR | EISDIR | EACCES | EINVAL
  | SpawnError
  | LibreOfficeFailed reason
  | MammothError string
  | PdfParseError string
  | UnsupportedFileType path
  | UnsupportedInputFile path
  | OutputIsDirectory
  | InputNotFileOrDirectory

datatype message =
    LogSkipping path
  | LogConverted path path
  | WarnNoSupportedFiles path
  | ErrProbe path error
  | ErrConvert path error
  | ErrProcess error

text \<open>
  A node is a regular file with its contents, a directory, or something else (a device,
  a socket). The file system lists the nodes by path; the root always exists. New
  nodes go to the end of the list, and \<open>readdir\<close> reports a directory in list order.
\<close>

datatype node = File string | Dir | Special

type_synonym fs = "(path \<times> node) list"

definition lookup :: "fs \<Rightarrow> path \<Rightarrow> node option" where
  "lookup fs p = (if p = [] then Some Dir else map_of fs p)"

text \<open>Some proper ancestor of the path is not a directory: the kernel answers ENOTDIR.\<close>

definition notdir_above :: "fs \<Rightarrow> path \<Rightarrow> bool" where
  "notdir_above fs p =
     list_ex (\<lambda>q. case lookup fs q of None \<Rightarrow> False | Some Dir \<Rightarrow> False | Some _ \<Rightarrow> True)
       (butlast (prefixes p))"

definition stat :: "fs \<Rightarrow> path \<Rightarrow> error + node" where
  "stat fs p =
     (if notdir_above fs p then Inl ENOTDIR
      else case lookup fs p of None \<Rightarrow> Inl ENOENT | Some n \<Rightarrow> Inr n)"

definition access :: "fs \<Rightarrow> path \<Rightarrow> error + unit" where
  "access fs p = (case stat fs p of Inl e \<Rightarrow> Inl e | Inr _ \<Rightarrow> Inr ())"

definition readFile :: "fs \<Rightarrow> path \<Rightarrow> error + string" where
  "readFile fs p =
     (case stat fs p of
        Inl e \<Rightarrow> Inl e
      | Inr (File c) \<Rightarrow> Inr c
      | Inr Dir \<Rightarrow> Inl EISDIR
      | Inr Special \<Rightarrow> Inl EINVAL)"

text \<open>\<open>fs.mkdir p {recursive: true}\<close>: walks the prefixes of \<open>p\<close> from the root, creating
  the missing ones; EEXIST when \<open>p\<close> itself is not a directory, ENOTDIR when an ancestor
  is not.\<close>

fun mkdirs :: "path list \<Rightarrow> fs \<Rightarrow> error + fs" where
  "mkdirs [] fs = Inr fs"
| "mkdirs (q # qs) fs =
     (case lookup fs q of
        None \<Rightarrow> mkdirs qs (fs @ [(q, Dir)])
      | Some Dir \<Rightarrow> mkdirs qs fs
      | Some _ \<Rightarrow> Inl (if qs = [] then EEXIST else ENOTDIR))"

definition mkdir_recursive :: "fs \<Rightarrow> path \<Rightarrow> error + fs" where
  "mkdir_recursive fs p = mkdirs (prefixes p) fs"

text \<open>\<open>fs.rm p {recursive: true, force: true}\<close>: removes the path and all below it; a
  missing path is no error.\<close>

definition rm_recursive :: "fs \<Rightarrow> path \<Rightarrow> error + fs" where
  "rm_recursive fs p =
     (if notdir_above fs p then Inl ENOTDIR
      else Inr (filter (\<lambda>(q, _). \<not> prefix p q) fs))"

datatype dirent = Dirent (name: string) (isFile: bool)

text \<open>\<open>fs.readdir dir {withFileTypes: true}\<close>: the children of the directory, each once,
  with \<open>isFile\<close> true for the regular files.\<close>

definition readdir :: "fs \<Rightarrow> path \<Rightarrow> error + dirent list" where
  "readdir fs dir =
     (case stat fs dir of
        Inl e \<Rightarrow> Inl e
      | Inr Dir \<Rightarrow>
          Inr (map (\<lambda>(q, n). Dirent (last q) (case n of File _ \<Rightarrow> True | _ \<Rightarrow> False))
                 (filter (\<lambda>(q, _). q \<noteq> [] \<and> butlast q = dir) (AList.clearjunk fs)))
      | Inr _ \<Rightarrow> Inl ENOTDIR)"


section \<open>The environment\<close>

text \<open>
  The collaborators outside the repository are parameters: the system temporary
  directory and the name \<open>mkdtemp\<close> picks, the \<open>soffice\<close> process (how it ends and the
  file it leaves in the output directory), \<open>mammoth\<close> (bytes of a .docx to HTML),
  \<open>turndown\<close> with the image rule (HTML to Markdown), \<open>pdf-parse\<close> (bytes to text),
  and the paths where the operating system refuses a write or the removal of a file.
\<close>

datatype proc_end = SpawnFailed | Exit "int option" "string option"

record env =
  tmpdir :: path
  mkdtemp_suffix :: "fs \<Rightarrow> string"
  soffice :: "fs \<Rightarrow> path \<Rightarrow> proc_end \<times> (string \<times> string) option"
  mammoth :: "string \<Rightarrow> string + string"
  turndown :: "string \<Rightarrow> string"
  pdfGetText :: "string \<Rightarrow> string + string"
  writeDenied :: "path \<Rightarrow> bool"
  rmDenied :: "path \<Rightarrow> bool"

text \<open>\<open>fs.mkdtemp prefix\<close> with the prefix of line 86: a new directory under the temporary
  directory whose name is unused, so nothing lies at it or below it.\<close>

definition tempDirName :: "env \<Rightarrow> fs \<Rightarrow> path" where
  "tempDirName env fs = path_join (tmpdir env) (''input-docx-'' @ mkdtemp_suffix env fs)"

definition mkdtemp :: "env \<Rightarrow> fs \<Rightarrow> error + (path \<times> fs)" where
  "mkdtemp env fs =
     (case stat fs (tmpdir env) of
        Inl e \<Rightarrow> Inl e
      | Inr Dir \<Rightarrow>
          if list_ex (\<lambda>(q, _). prefix (tempDirName env fs) q) fs then Inl EEXIST
          else Inr (tempDirName env fs, fs @ [(tempDirName env fs, Dir)])
      | Inr _ \<Rightarrow> Inl ENOTDIR)"

text \<open>\<open>fs.writeFile p data "utf8"\<close>: replaces or creates a regular file in an existing
  directory, the whole contents at once. A write on a directory fails; a write on a
  special node is taken to fail too.\<close>

definition writeFile :: "env \<Rightarrow> fs \<Rightarrow> path \<Rightarrow> string \<Rightarrow> error + fs" where
  "writeFile env fs p c =
     (if writeDenied env p then Inl EACCES
      else case stat fs (dirname p) of
        Inl e \<Rightarrow> Inl e
      | Inr Dir \<Rightarrow>
          (case lookup fs p of
             Some Dir \<Rightarrow> Inl EISDIR
           | Some Special \<Rightarrow> Inl EINVAL
           | _ \<Rightarrow> Inr (AList.update p (File c) fs))
      | Inr _ \<Rightarrow> Inl ENOTDIR)"

text \<open>\<open>fs.rm p {force: true}\<close>: a missing path is no error, a directory is one, and the
  removal of a file can be refused.\<close>

definition rm_force :: "env \<Rightarrow> fs \<Rightarrow> path \<Rightarrow> error + fs" where
  "rm_force env fs p =
     (case stat fs p of
        Inl e \<Rightarrow> (if e = ENOENT then Inr fs else Inl e)
      | Inr Dir \<Rightarrow> Inl EISDIR
      | Inr _ \<Rightarrow> if rmDenied env p then Inl EACCES else Inr (AList.delete p fs))"

text \<open>
  The state of a run: the file system, the lines written to the console, the process
  exit code, and a record of the paths on which \<open>convertDocument\<close> was invoked, kept
  for the properties about invocations.
\<close>

record world =
  disk :: fs
  console :: "message list"
  exitCode :: nat
  adapterCalls :: "path list"

definition say :: "message \<Rightarrow> world \<Rightarrow> world" where
  "say m w = w\<lparr>console := console w @ [m]\<rparr>"


section \<open>convert.ts\<close>

text \<open>Lines 51-54.\<close>

definition convertDocxToMarkdown :: "env \<Rightarrow> fs \<Rightarrow> path \<Rightarrow> error + string" where
  "convertDocxToMarkdown env fs filePath =
     (case readFile fs filePath of
        Inl e \<Rightarrow> Inl e
      | Inr bytes \<Rightarrow>
          (case mammoth env bytes of
             Inl msg \<Rightarrow> Inl (MammothError msg)
           | Inr html \<Rightarrow> Inr (turndown env html)))"

text \<open>Lines 56-81. The process may leave a file in \<open>outDir\<close>; the promise resolves on
  exit code 0 and rejects otherwise, the reason being the signal when there is one.\<close>

definition runLibreOfficeConversion :: "env \<Rightarrow> path \<Rightarrow> path \<Rightarrow> fs \<Rightarrow> (error + unit) \<times> fs" where
  "runLibreOfficeConversion env filePath outDir fs =
     (case soffice env fs filePath of
        (SpawnFailed, _) \<Rightarrow> (Inl SpawnError, fs)
      | (Exit code signal, out) \<Rightarrow>
          (let fs' = (case out of
                        None \<Rightarrow> fs
                      | Some (n, c) \<Rightarrow> AList.update (path_join outDir n) (File c) fs)
           in if code = Some 0 then (Inr (), fs')
              else (case signal of
                      Some s \<Rightarrow>
                        (if s \<noteq> [] then (Inl (LibreOfficeFailed (Signal s)), fs')
                         else (Inl (LibreOfficeFailed (ExitCode code)), fs'))
                    | None \<Rightarrow> (Inl (LibreOfficeFailed (ExitCode code)), fs'))))"

text \<open>Lines 83-101. The result is \<open>docxPath\<close> and, standing for the \<open>cleanup\<close> closure,
  the directory that closure removes.\<close>

definition convertDocToDocx :: "env \<Rightarrow> path \<Rightarrow> world \<Rightarrow> (error + path \<times> path) \<times> world" where
  "convertDocToDocx env filePath w =
     (case mkdtemp env (disk w) of
        Inl e \<Rightarrow> (Inl e, w)
      | Inr (tempDir, fs1) \<Rightarrow>
          (case runLibreOfficeConversion env filePath tempDir fs1 of
             (Inl e, fs2) \<Rightarrow> (Inl e, w\<lparr>disk := fs2\<rparr>)
           | (Inr _, fs2) \<Rightarrow>
               (let docxPath =
                      path_join tempDir
                        (basename (name_of filePath) (extname (name_of filePath)) @ ''.docx'')
                in case access fs2 docxPath of
                     Inl e \<Rightarrow> (Inl e, w\<lparr>disk := fs2\<rparr>)
                   | Inr _ \<Rightarrow> (Inr (docxPath, tempDir), w\<lparr>disk := fs2\<rparr>))))"

text \<open>Lines 110-118, the text of the PDF being given.\<close>

definition reformatPdfText :: "string \<Rightarrow> string" where
  "reformatPdfText text =
     (let lines = filter (\<lambda>line. trim line \<noteq> []) (split_nl text)
      in join ''\<newline>\<newline>'' (filter (\<lambda>line. length line > 0) (map trim lines)))"

text \<open>Lines 103-119.\<close>

definition convertPdfToMarkdown :: "env \<Rightarrow> fs \<Rightarrow> path \<Rightarrow> error + string" where
  "convertPdfToMarkdown env fs filePath =
     (case readFile fs filePath of
        Inl e \<Rightarrow> Inl e
      | Inr fileBuffer \<Rightarrow>
          (case pdfGetText env fileBuffer of
             Inl msg \<Rightarrow> Inl (PdfParseError msg)
           | Inr text \<Rightarrow> Inr (reformatPdfText text)))"

text \<open>Lines 121-141. The \<open>finally\<close> block runs \<open>cleanup\<close> whatever the conversion of the
  temporary .docx gave; an error of \<open>cleanup\<close> itself replaces the result.\<close>

definition convertDocument :: "env \<Rightarrow> path \<Rightarrow> world \<Rightarrow> (error + string) \<times> world" where
  "convertDocument env filePath w0 =
     (let w = w0\<lparr>adapterCalls := adapterCalls w0 @ [filePath]\<rparr>;
          ext = toLowerCase (extname (name_of filePath))
      in if ext = ''.docx'' then (convertDocxToMarkdown env (disk w) filePath, w)
         else if ext = ''.doc'' then
           (case convertDocToDocx env filePath w of
              (Inl e, w1) \<Rightarrow> (Inl e, w1)
            | (Inr (docxPath, tempDir), w1) \<Rightarrow>
                (case rm_recursive (disk w1) tempDir of
                   Inl e \<Rightarrow> (Inl e, w1)
                 | Inr fs' \<Rightarrow>
                     (convertDocxToMarkdown env (disk w1) docxPath, w1\<lparr>disk := fs'\<rparr>)))
         else if ext = ''.pdf'' then (convertPdfToMarkdown env (disk w) filePath, w)
         else (Inl (UnsupportedFileType filePath), w))"

text \<open>Lines 154-167, the body of the \<open>try\<close> block: \<open>Inr True\<close> is the early \<open>return\<close>,
  \<open>Inr False\<close> falls out of the block.\<close>

definition probeOutput :: "env \<Rightarrow> path \<Rightarrow> bool \<Rightarrow> world \<Rightarrow> (error + bool) \<times> world" where
  "probeOutput env outputPath clearOutput w =
     (case stat (disk w) outputPath of
        Inl e \<Rightarrow> (Inl e, w)
      | Inr existing \<Rightarrow>
          if existing = Dir then (Inl OutputIsDirectory, w)
          else if clearOutput then
            (case rm_force env (disk w) outputPath of
               Inl e \<Rightarrow> (Inl e, w)
             | Inr fs' \<Rightarrow> (Inr False, w\<lparr>disk := fs'\<rparr>))
          else (Inr True, say (LogSkipping outputPath) w))"

text \<open>Lines 174-176 and 220-222: convert, write, report.\<close>

definition convertAndWrite :: "env \<Rightarrow> path \<Rightarrow> path \<Rightarrow> world \<Rightarrow> (error + unit) \<times> world" where
  "convertAndWrite env sourcePath targetPath w =
     (case convertDocument env sourcePath w of
        (Inl e, w1) \<Rightarrow> (Inl e, w1)
      | (Inr markdown, w1) \<Rightarrow>
          (case writeFile env (disk w1) targetPath markdown of
             Inl e \<Rightarrow> (Inl e, w1)
           | Inr fs' \<Rightarrow> (Inr (), say (LogConverted sourcePath targetPath) (w1\<lparr>disk := fs'\<rparr>))))"

text \<open>Lines 143-177. The \<open>catch\<close> swallows ENOENT and rethrows the rest.\<close>

definition convertSingleFile :: "env \<Rightarrow> path \<Rightarrow> path \<Rightarrow> bool \<Rightarrow> world \<Rightarrow> (error + unit) \<times> world" where
  "convertSingleFile env inputPath outputPath clearOutput w =
     (if extname (name_of inputPath) \<notin> supportedExtensions
      then (Inl (UnsupportedInputFile inputPath), w)
      else case mkdir_recursive (disk w) (dirname outputPath) of
        Inl e \<Rightarrow> (Inl e, w)
      | Inr fs1 \<Rightarrow>
          (case probeOutput env outputPath clearOutput (w\<lparr>disk := fs1\<rparr>) of
             (Inr True, w2) \<Rightarrow> (Inr (), w2)
           | (Inr False, w2) \<Rightarrow> convertAndWrite env inputPath outputPath w2
           | (Inl e, w2) \<Rightarrow>
               if e \<noteq> ENOENT then (Inl e, w2)
               else convertAndWrite env inputPath outputPath w2))"

text \<open>Lines 200-202.\<close>

definition sourcePath :: "path \<Rightarrow> dirent \<Rightarrow> path" where
  "sourcePath inputDir entry = path_join inputDir (name entry)"

definition targetPath :: "path \<Rightarrow> dirent \<Rightarrow> path" where
  "targetPath outputDir entry =
     path_join outputDir (basename (name entry) (extname (name entry)) @ ''.md'')"

text \<open>Lines 204-217, the start of a turn of the loop: \<open>Inl\<close> is \<open>continue\<close>, \<open>Inr\<close> goes
  on to the conversion. With \<open>clearOutput\<close> the error of \<open>rm\<close> is dropped.\<close>

definition prepareTarget :: "env \<Rightarrow> bool \<Rightarrow> path \<Rightarrow> world \<Rightarrow> world + world" where
  "prepareTarget env clearOutput tgt w =
     (if \<not> clearOutput then
        (case access (disk w) tgt of
           Inr _ \<Rightarrow> Inl (say (LogSkipping tgt) w)
         | Inl e \<Rightarrow> if e \<noteq> ENOENT then Inl (say (ErrProbe tgt e) w) else Inr w)
      else
        (case rm_force env (disk w) tgt of
           Inl _ \<Rightarrow> Inr w
         | Inr fs' \<Rightarrow> Inr (w\<lparr>disk := fs'\<rparr>)))"

text \<open>Lines 199-226, one turn of the loop.\<close>

definition convertEntry :: "env \<Rightarrow> path \<Rightarrow> path \<Rightarrow> bool \<Rightarrow> dirent \<Rightarrow> world \<Rightarrow> world" where
  "convertEntry env inputDir outputDir clearOutput entry w =
     (case prepareTarget env clearOutput (targetPath outputDir entry) w of
        Inl w' \<Rightarrow> w'
      | Inr w1 \<Rightarrow>
          (case convertAndWrite env (sourcePath inputDir entry) (targetPath outputDir entry) w1 of
             (Inl e, w2) \<Rightarrow> say (ErrConvert (sourcePath inputDir entry) e) w2
           | (Inr _, w2) \<Rightarrow> w2))"

fun convertEntries :: "env \<Rightarrow> path \<Rightarrow> path \<Rightarrow> bool \<Rightarrow> dirent list \<Rightarrow> world \<Rightarrow> world" where
  "convertEntries env inputDir outputDir clearOutput [] w = w"
| "convertEntries env inputDir outputDir clearOutput (entry # rest) w =
     convertEntries env inputDir outputDir clearOutput rest
       (convertEntry env inputDir outputDir clearOutput entry w)"

text \<open>Lines 190-192.\<close>

definition eligible :: "dirent list \<Rightarrow> dirent list" where
  "eligible entries =
     filter (\<lambda>entry. extname (name entry) \<in> supportedExtensions)
       (filter (\<lambda>entry. isFile entry) entries)"

text \<open>Lines 179-227.\<close>

definition convertDirectory :: "env \<Rightarrow> path \<Rightarrow> path \<Rightarrow> bool \<Rightarrow> world \<Rightarrow> (error + unit) \<times> world" where
  "convertDirectory env inputDir outputDir clearOutput w =
     (case (if clearOutput then rm_recursive (disk w) outputDir else Inr (disk w)) of
        Inl e \<Rightarrow> (Inl e, w)
      | Inr fs1 \<Rightarrow>
          (case mkdir_recursive fs1 outputDir of
             Inl e \<Rightarrow> (Inl e, w\<lparr>disk := fs1\<rparr>)
           | Inr fs2 \<Rightarrow>
               (case readdir fs2 inputDir of
                  Inl e \<Rightarrow> (Inl e, w\<lparr>disk := fs2\<rparr>)
                | Inr entries \<Rightarrow>
                    if length (eligible entries) = 0
                    then (Inr (), say (WarnNoSupportedFiles inputDir) (w\<lparr>disk := fs2\<rparr>))
                    else (Inr (), convertEntries env inputDir outputDir clearOutput
                                    (eligible entries) (w\<lparr>disk := fs2\<rparr>)))))"

text \<open>Lines 229-244.\<close>

definition main :: "env \<Rightarrow> path \<Rightarrow> path \<Rightarrow> bool \<Rightarrow> world \<Rightarrow> world" where
  "main env inputPath outputPath clearOutput w =
     (case (case stat (disk w) inputPath of
              Inl e \<Rightarrow> (Inl e, w)
            | Inr (File _) \<Rightarrow> convertSingleFile env inputPath outputPath clearOutput w
            | Inr Dir \<Rightarrow> convertDirectory env inputPath outputPath clearOutput w
            | Inr Special \<Rightarrow> (Inl InputNotFileOrDirectory, w)) of
        (Inl e, w') \<Rightarrow> (say (ErrProcess e) w')\<lparr>exitCode := 1\<rparr>
      | (Inr _, w') \<Rightarrow> w')"

section \<open>Notions used to state the properties\<close>

text \<open>The regular files of a file system, with their contents.\<close>

definition contents :: "fs \<Rightarrow> path \<Rightarrow> string option" where
  "contents fs p = (case lookup fs p of Some (File c) \<Rightarrow> Some c | _ \<Rightarrow> None)"

text \<open>A line is blank when it has white space only (or nothing).\<close>

definition blank :: "string \<Rightarrow> bool" where
  "blank line = list_all isWhiteSpace line"

text \<open>The reformatting of PDF text in the words of the specification: split on line
  breaks, discard the blank lines, trim the others, join with an empty line between.\<close>

definition reformat_spec :: "string \<Rightarrow> string" where
  "reformat_spec text =
     join ''\<newline>\<newline>'' (map trim (filter (\<lambda>line. \<not> blank line) (split_nl text)))"


text \<open>The errors that come from the file system or a collaborator, as opposed to the
  four that \<open>convert.ts\<close> throws itself.\<close>

definition foreign :: "error \<Rightarrow> bool" where
  "foreign e =
     (case e of
        UnsupportedFileType _ \<Rightarrow> False
      | UnsupportedInputFile _ \<Rightarrow> False
      | OutputIsDirectory \<Rightarrow> False
      | InputNotFileOrDirectory \<Rightarrow> False
      | _ \<Rightarrow> True)"

section \<open>A concrete environment\<close>

text \<open>
  Collaborators for the examples: a file whose bytes are \<open>corrupt\<close> makes \<open>soffice\<close> exit
  with code 1 and \<open>mammoth\<close> and \<open>pdf-parse\<close> throw; any other file converts, \<open>soffice\<close>
  leaving the .docx under the name \<open>convertDocToDocx\<close> expects.
\<close>

definition demo_env :: env where
  "demo_env =
     \<lparr>tmpdir = [''tmp''],
      mkdtemp_suffix = (\<lambda>fs. ''Ab12Cd''),
      soffice = (\<lambda>fs p. case lookup fs p of
                   Some (File c) \<Rightarrow>
                     if c = ''corrupt'' then (Exit (Some 1) None, None)
                     else (Exit (Some 0) None,
                           Some (basename (name_of p) (extname (name_of p)) @ ''.docx'', c))
                 | _ \<Rightarrow> (SpawnFailed, None)),
      mammoth = (\<lambda>bytes. if bytes = ''corrupt'' then Inl ''bad zip'' else Inr bytes),
      turndown = (\<lambda>html. ''# '' @ html),
      pdfGetText = (\<lambda>bytes. if bytes = ''corrupt'' then Inl ''bad pdf'' else Inr bytes),
      writeDenied = (\<lambda>p. False),
      rmDenied = (\<lambda>p. False)\<rparr>"

definition demo_world :: "fs \<Rightarrow> world" where
  "demo_world fs = \<lparr>disk = fs, console = [], exitCode = 0, adapterCalls = []\<rparr>"

definition demo_disk :: fs where
  "demo_disk =
     [([''tmp''], Dir),
      ([''in''], Dir),
      ([''in'', ''a.docx''], File ''alpha''),
      ([''in'', ''b.pdf''], File ''corrupt''),
      ([''in'', ''c.doc''], File ''gamma''),
      ([''in'', ''notes.txt''], File ''plain''),
      ([''out''], Dir),
      ([''out'', ''old.md''], File ''old''),
      ([''out'', ''dir.md''], Dir)]"

definition notes_disk :: fs where
  "notes_disk =
     [([''docs''], Dir),
      ([''docs'', ''notes.txt''], File ''plain''),
      ([''docs'', ''sub.docx''], Dir)]"

definition rerun_disk :: fs where
  "rerun_disk =
     [([''tmp''], Dir),
      ([''in''], Dir),
      ([''in'', ''a.docx''], File ''alpha''),
      ([''in'', ''b.pdf''], File ''corrupt''),
      ([''res''], Dir),
      ([''res'', ''a.md''], File ''edited by hand'')]"

definition leak_disk :: fs where
  "leak_disk =
     [([''tmp''], Dir),
      ([''in''], Dir),
      ([''in'', ''d.doc''], File ''corrupt'')]"


text \<open>The same collaborators on a system that refuses to remove \<open>/out/old.md\<close>.\<close>

definition keeping_env :: env where
  "keeping_env = demo_env\<lparr>rmDenied := (\<lambda>p. p = [''out'', ''old.md''])\<rparr>"


text \<open>A PDF whose extracted text is the text of its bytes.\<close>

definition lines_disk :: fs where
  "lines_disk =
     [([''in''], Dir),
      ([''in'', ''lines.pdf''], File ''Line A\<newline>\<newline>  \<newline>Line B  \<newline>'')]"


section \<open>Properties\<close>


subsection \<open>lookup\<close>

lemma lookup_root [simp]: "lookup fs [] = Some Dir"
  by (simp add: lookup_def)

lemma lookup_append:
  "lookup (fs @ ex) p = (case lookup fs p of Some n \<Rightarrow> Some n | None \<Rightarrow> map_of ex p)"
  by (auto simp: lookup_def map_add_def split: option.splits)

lemma lookup_delete:
  "lookup (AList.delete k fs) p = (if p = k \<and> p \<noteq> [] then None else lookup fs p)"
  by (auto simp: lookup_def delete_conv')

lemma lookup_update:
  "lookup (AList.update k v fs) p = (if p = [] then Some Dir else if p = k then Some v else lookup fs p)"
  by (auto simp: lookup_def update_conv')

lemma map_of_filter_key:
  "map_of (filter (\<lambda>(q, _). P q) fs) p = (if P p then map_of fs p else None)"
  by (induction fs) auto

lemma lookup_rm:
  "lookup (filter (\<lambda>(q, _). \<not> prefix d q) fs) p =
     (if p \<noteq> [] \<and> prefix d p then None else lookup fs p)"
  by (auto simp: lookup_def map_of_filter_key)

subsection \<open>mkdirs\<close>

lemma mkdirs_lookup:
  "mkdirs qs fs = Inr fs' \<Longrightarrow>
   lookup fs' p = (case lookup fs p of Some n \<Rightarrow> Some n | None \<Rightarrow> if p \<in> set qs then Some Dir else None)"
proof (induction qs arbitrary: fs)
  case Nil
  then show ?case by (auto split: option.splits)
next
  case (Cons q qs)
  show ?case
  proof (cases "lookup fs q")
    case None
    with Cons.prems have "mkdirs qs (fs @ [(q, Dir)]) = Inr fs'" by simp
    from Cons.IH[OF this] None show ?thesis
      by (auto simp: lookup_append split: option.splits if_splits)
  next
    case (Some n)
    with Cons.prems have n: "n = Dir" and "mkdirs qs fs = Inr fs'"
      by (auto split: node.splits)
    from Cons.IH[OF this(2)] Some n show ?thesis
      by (auto split: option.splits)
  qed
qed

lemma mkdirs_made:
  "mkdirs qs fs = Inr fs' \<Longrightarrow> q \<in> set qs \<Longrightarrow> lookup fs' q = Some Dir"
proof (induction qs arbitrary: fs)
  case Nil
  then show ?case by simp
next
  case (Cons a qs)
  show ?case
  proof (cases "lookup fs a")
    case None
    with Cons.prems have m: "mkdirs qs (fs @ [(a, Dir)]) = Inr fs'" by simp
    show ?thesis
    proof (cases "q = a")
      case True
      have "lookup (fs @ [(a, Dir)]) a = Some Dir" using None by (simp add: lookup_append)
      with mkdirs_lookup[OF m, of a] True show ?thesis by simp
    next
      case False
      with Cons.prems have "q \<in> set qs" by simp
      from Cons.IH[OF m this] show ?thesis .
    qed
  next
    case (Some n)
    with Cons.prems have n: "n = Dir" and m: "mkdirs qs fs = Inr fs'"
      by (auto split: node.splits)
    show ?thesis
    proof (cases "q = a")
      case True
      with mkdirs_lookup[OF m, of a] Some n show ?thesis by simp
    next
      case False
      with Cons.prems have "q \<in> set qs" by simp
      from Cons.IH[OF m this] show ?thesis .
    qed
  qed
qed

lemma mkdirs_noop:
  "list_all (\<lambda>q. lookup fs q = Some Dir) qs \<Longrightarrow> mkdirs qs fs = Inr fs"
  by (induction qs) auto

lemma mkdirs_succeeds:
  "list_all (\<lambda>q. lookup fs q = None \<or> lookup fs q = Some Dir) qs \<Longrightarrow> \<exists>fs'. mkdirs qs fs = Inr fs'"
proof (induction qs arbitrary: fs)
  case Nil
  then show ?case by simp
next
  case (Cons q qs)
  show ?case
  proof (cases "lookup fs q")
    case None
    have "list_all (\<lambda>r. lookup (fs @ [(q, Dir)]) r = None \<or> lookup (fs @ [(q, Dir)]) r = Some Dir) qs"
      using Cons.prems by (auto simp: list_all_iff lookup_append split: option.splits)
    from Cons.IH[OF this] None show ?thesis by simp
  next
    case (Some n)
    with Cons.prems have "n = Dir" by simp
    moreover have "list_all (\<lambda>r. lookup fs r = None \<or> lookup fs r = Some Dir) qs"
      using Cons.prems by simp
    ultimately show ?thesis using Cons.IH Some by simp
  qed
qed

lemma mkdirs_shape:
  "mkdirs qs fs = Inr fs' \<Longrightarrow> \<exists>ds. fs' = fs @ map (\<lambda>q. (q, Dir)) ds"
proof (induction qs arbitrary: fs)
  case Nil
  then show ?case by simp
next
  case (Cons q qs)
  show ?case
  proof (cases "lookup fs q")
    case None
    with Cons.prems have "mkdirs qs (fs @ [(q, Dir)]) = Inr fs'" by simp
    from Cons.IH[OF this] obtain ds where "fs' = (fs @ [(q, Dir)]) @ map (\<lambda>q. (q, Dir)) ds" by blast
    then have "fs' = fs @ map (\<lambda>q. (q, Dir)) (q # ds)" by simp
    then show ?thesis by blast
  next
    case (Some n)
    with Cons.prems have "mkdirs qs fs = Inr fs'" by (auto split: node.splits)
    from Cons.IH[OF this] show ?thesis .
  qed
qed

lemma mkdirs_errors: "mkdirs qs fs = Inl e \<Longrightarrow> e = EEXIST \<or> e = ENOTDIR"
  by (induction qs arbitrary: fs) (auto split: option.splits node.splits if_splits)

subsection \<open>notdir_above, stat\<close>

lemma strict_prefix_snoc_iff: "strict_prefix q (d @ [x]) \<longleftrightarrow> prefix q d"
proof
  assume "strict_prefix q (d @ [x])"
  then show "prefix q d" by (auto simp: strict_prefix_def prefix_snoc)
next
  assume a: "prefix q d"
  then have "length q \<le> length d" by (rule prefix_length_le)
  then have "q \<noteq> d @ [x]" by auto
  with a show "strict_prefix q (d @ [x])" by (simp add: strict_prefix_def prefix_snoc)
qed

lemma notdir_above_root [simp]: "\<not> notdir_above fs []"
  by (simp add: notdir_above_def)

lemma notdir_above_snoc:
  "notdir_above fs (d @ [x]) \<longleftrightarrow>
     (\<exists>q. prefix q d \<and> lookup fs q \<noteq> None \<and> lookup fs q \<noteq> Some Dir)"
  by (auto simp: notdir_above_def list_ex_iff in_set_prefixes split: option.splits node.splits)

lemma notdir_above_iff:
  "notdir_above fs p \<longleftrightarrow>
     (\<exists>q. strict_prefix q p \<and> lookup fs q \<noteq> None \<and> lookup fs q \<noteq> Some Dir)"
proof (cases p rule: rev_cases)
  case Nil
  then show ?thesis by simp
next
  case (snoc d x)
  then show ?thesis by (simp add: notdir_above_snoc strict_prefix_snoc_iff)
qed

lemma contents_mkdirs: "mkdirs qs fs = Inr fs' \<Longrightarrow> contents fs' = contents fs"
  by (rule ext) (auto simp: contents_def mkdirs_lookup split: option.splits node.splits)


subsection \<open>The temporary directory\<close>

lemma update_append_fresh:
  "k \<notin> fst ` set xs \<Longrightarrow> AList.update k v (xs @ ys) = xs @ AList.update k v ys"
  by (induction xs) auto

lemma fresh_keys:
  "\<not> list_ex (\<lambda>(q, _). prefix t q) fs \<Longrightarrow> prefix t k \<Longrightarrow> k \<notin> fst ` set fs"
  by (auto simp: list_ex_iff)

lemma fresh_lookup:
  "\<not> list_ex (\<lambda>(q, _). prefix t q) fs \<Longrightarrow> prefix t k \<Longrightarrow> k \<noteq> [] \<Longrightarrow> lookup fs k = None"
  using fresh_keys[of t fs k] by (simp add: lookup_def map_of_eq_None_iff)

lemma rm_fresh:
  "\<not> list_ex (\<lambda>(q, _). prefix t q) fs \<Longrightarrow> list_all (\<lambda>(q, _). prefix t q) ex \<Longrightarrow>
   filter (\<lambda>(q, _). \<not> prefix t q) (fs @ ex) = fs"
proof -
  assume a: "\<not> list_ex (\<lambda>(q, _). prefix t q) fs" and b: "list_all (\<lambda>(q, _). prefix t q) ex"
  have "filter (\<lambda>(q, _). \<not> prefix t q) fs = fs"
    using a by (induction fs) auto
  moreover have "filter (\<lambda>(q, _). \<not> prefix t q) ex = []"
    using b by (induction ex) auto
  ultimately show ?thesis by simp
qed

lemma mkdtemp_Inr:
  "mkdtemp env fs = Inr (t, fs1) \<Longrightarrow>
   t = tempDirName env fs \<and> fs1 = fs @ [(t, Dir)] \<and>
   \<not> list_ex (\<lambda>(q, _). prefix t q) fs \<and> stat fs (tmpdir env) = Inr Dir"
  by (auto simp: mkdtemp_def split: sum.splits node.splits if_splits)

lemma runLibreOfficeConversion_disk:
  "runLibreOfficeConversion env p t fs1 = (r, fs2) \<Longrightarrow>
   fs2 = fs1 \<or> (\<exists>n c. fs2 = AList.update (path_join t n) (File c) fs1)"
  by (auto simp: runLibreOfficeConversion_def Let_def
           split: prod.splits proc_end.splits option.splits if_splits)

lemma tempDirName_nonempty [simp]: "tempDirName env fs \<noteq> []"
  by (simp add: tempDirName_def path_join_def)

lemma convertDocToDocx_effect:
  assumes "convertDocToDocx env p w = (r, w')"
  shows "console w' = console w \<and> exitCode w' = exitCode w \<and> adapterCalls w' = adapterCalls w"
    and "(disk w' = disk w \<and> (\<exists>e. r = Inl e)) \<or>
         (\<not> list_ex (\<lambda>(q, _). prefix (tempDirName env (disk w)) q) (disk w) \<and>
          stat (disk w) (tmpdir env) = Inr Dir \<and>
          (disk w' = disk w @ [(tempDirName env (disk w), Dir)] \<or>
           (\<exists>n c. disk w' = disk w @ [(tempDirName env (disk w), Dir),
                                       (path_join (tempDirName env (disk w)) n, File c)])) \<and>
          (\<forall>d t'. r = Inr (d, t') \<longrightarrow> t' = tempDirName env (disk w)))"
proof -
  show "console w' = console w \<and> exitCode w' = exitCode w \<and> adapterCalls w' = adapterCalls w"
    using assms by (auto simp: convertDocToDocx_def Let_def split: sum.splits prod.splits)
  show "(disk w' = disk w \<and> (\<exists>e. r = Inl e)) \<or>
         (\<not> list_ex (\<lambda>(q, _). prefix (tempDirName env (disk w)) q) (disk w) \<and>
          stat (disk w) (tmpdir env) = Inr Dir \<and>
          (disk w' = disk w @ [(tempDirName env (disk w), Dir)] \<or>
           (\<exists>n c. disk w' = disk w @ [(tempDirName env (disk w), Dir),
                                       (path_join (tempDirName env (disk w)) n, File c)])) \<and>
          (\<forall>d t'. r = Inr (d, t') \<longrightarrow> t' = tempDirName env (disk w)))"
  proof (cases "mkdtemp env (disk w)")
    case (Inl e)
    with assms show ?thesis by (auto simp: convertDocToDocx_def)
  next
    case (Inr a)
    obtain t fs1 where a: "a = (t, fs1)" by (cases a)
    note m = mkdtemp_Inr[OF Inr[unfolded a]]
    obtain r2 fs2 where run: "runLibreOfficeConversion env p t fs1 = (r2, fs2)"
      by (cases "runLibreOfficeConversion env p t fs1")
    have d: "disk w' = fs2" and t': "\<forall>d t'. r = Inr (d, t') \<longrightarrow> t' = t"
      using assms Inr a run
      by (auto simp: convertDocToDocx_def Let_def split: sum.splits)
    have k: "path_join t n \<notin> fst ` set (disk w)" for n
      using m by (intro fresh_keys[of t]) (auto simp: path_join_def)
    have "fs2 = disk w @ [(t, Dir)] \<or> (\<exists>n c. fs2 = disk w @ [(t, Dir), (path_join t n, File c)])"
      using runLibreOfficeConversion_disk[OF run] m k
      by (auto simp: update_append_fresh path_join_def)
    with m d t' show ?thesis by auto
  qed
qed

lemma convertDocument_world:
  "convertDocument env p w = (r, w') \<Longrightarrow>
   console w' = console w \<and> exitCode w' = exitCode w \<and> adapterCalls w' = adapterCalls w @ [p]"
  by (auto simp: convertDocument_def Let_def
           split: if_splits prod.splits sum.splits dest!: convertDocToDocx_effect(1))


lemma convertDocument_disk:
  assumes "convertDocument env p w = (r, w')"
  shows "disk w' = disk w \<or>
         ((\<exists>e. r = Inl e) \<and>
          \<not> list_ex (\<lambda>(q, _). prefix (tempDirName env (disk w)) q) (disk w) \<and>
          stat (disk w) (tmpdir env) = Inr Dir \<and>
          (disk w' = disk w @ [(tempDirName env (disk w), Dir)] \<or>
           (\<exists>n c. disk w' = disk w @ [(tempDirName env (disk w), Dir),
                                       (path_join (tempDirName env (disk w)) n, File c)])))"
proof (cases "toLowerCase (extname (name_of p)) = ''.doc''")
  case False
  with assms show ?thesis
    by (auto simp: convertDocument_def Let_def split: if_splits)
next
  case True
  define wa where "wa = w\<lparr>adapterCalls := adapterCalls w @ [p]\<rparr>"
  define t where "t = tempDirName env (disk w)"
  obtain r1 w1 where c: "convertDocToDocx env p wa = (r1, w1)"
    by (cases "convertDocToDocx env p wa")
  have da: "disk wa = disk w" by (simp add: wa_def)
  note eff = convertDocToDocx_effect(2)[OF c, unfolded da, folded t_def]
  show ?thesis
  proof (cases r1)
    case (Inl e)
    with assms True c have "r = Inl e" "w' = w1"
      by (auto simp: convertDocument_def Let_def wa_def)
    with eff show ?thesis unfolding t_def by auto
  next
    case (Inr a)
    obtain d t' where a: "a = (d, t')" by (cases a)
    from eff Inr a have fresh: "\<not> list_ex (\<lambda>(q, _). prefix t q) (disk w)"
      and st: "stat (disk w) (tmpdir env) = Inr Dir"
      and shape: "disk w1 = disk w @ [(t, Dir)] \<or>
                  (\<exists>n c. disk w1 = disk w @ [(t, Dir), (path_join t n, File c)])"
      and t': "t' = t"
      by auto
    show ?thesis
    proof (cases "rm_recursive (disk w1) t")
      case (Inl e)
      with assms True c Inr a t' have "r = Inl e" "w' = w1"
        by (auto simp: convertDocument_def Let_def wa_def)
      with fresh st shape show ?thesis unfolding t_def by auto
    next
      case (Inr fs')
      with assms True c \<open>r1 = Inr a\<close> a t' have w': "disk w' = fs'"
        by (auto simp: convertDocument_def Let_def wa_def)
      from Inr have "fs' = filter (\<lambda>(q, _). \<not> prefix t q) (disk w1)"
        by (auto simp: rm_recursive_def split: if_splits)
      also have "\<dots> = disk w"
      proof -
        from shape obtain ex where ex: "disk w1 = disk w @ ex"
          and all: "list_all (\<lambda>(q, _). prefix t q) ex"
          by (auto simp: path_join_def)
        show ?thesis unfolding ex by (rule rm_fresh[OF fresh all])
      qed
      finally show ?thesis using w' by simp
    qed
  qed
qed

lemma convertDocument_Inr_disk:
  "convertDocument env p w = (Inr md, w') \<Longrightarrow> disk w' = disk w"
  using convertDocument_disk[of env p w "Inr md" w'] by auto

lemma convertDocument_lookup_mono:
  "convertDocument env p w = (r, w') \<Longrightarrow> lookup (disk w) q = Some n \<Longrightarrow>
   lookup (disk w') q = Some n"
  using convertDocument_disk[of env p w r w'] by (auto simp: lookup_append)

lemma convertDocument_lookup_new:
  assumes "convertDocument env p w = (r, w')" and "lookup (disk w) q = None"
      and "lookup (disk w') q = Some n"
  shows "lookup (disk w) (tempDirName env (disk w)) = None \<and>
         ((q = tempDirName env (disk w) \<and> n = Dir) \<or>
          (\<exists>x c. q = path_join (tempDirName env (disk w)) x \<and> n = File c))"
proof -
  from convertDocument_disk[OF assms(1)] assms(2,3)
  have fresh: "\<not> list_ex (\<lambda>(q, _). prefix (tempDirName env (disk w)) q) (disk w)"
    and shape: "disk w' = disk w @ [(tempDirName env (disk w), Dir)] \<or>
           (\<exists>x c. disk w' = disk w @ [(tempDirName env (disk w), Dir),
                                       (path_join (tempDirName env (disk w)) x, File c)])"
    by auto
  have "lookup (disk w) (tempDirName env (disk w)) = None"
    using fresh_lookup[OF fresh, of "tempDirName env (disk w)"] by simp
  moreover from shape assms(2,3)
  have "(q = tempDirName env (disk w) \<and> n = Dir) \<or>
          (\<exists>x c. q = path_join (tempDirName env (disk w)) x \<and> n = File c)"
    by (auto simp: lookup_append split: if_splits)
  ultimately show ?thesis by simp
qed

subsection \<open>Where errors come from\<close>

lemma stat_errors: "stat fs p = Inl e \<Longrightarrow> e = ENOTDIR \<or> e = ENOENT"
  by (auto simp: stat_def split: if_splits option.splits)

lemma readFile_foreign: "readFile fs p = Inl e \<Longrightarrow> foreign e"
  by (auto simp: readFile_def foreign_def split: sum.splits node.splits dest!: stat_errors)

lemma convertDocxToMarkdown_foreign: "convertDocxToMarkdown env fs p = Inl e \<Longrightarrow> foreign e"
  by (auto simp: convertDocxToMarkdown_def split: sum.splits dest: readFile_foreign)
     (simp add: foreign_def)

lemma convertPdfToMarkdown_foreign: "convertPdfToMarkdown env fs p = Inl e \<Longrightarrow> foreign e"
  by (auto simp: convertPdfToMarkdown_def split: sum.splits dest: readFile_foreign)
     (simp add: foreign_def)

lemma mkdtemp_foreign: "mkdtemp env fs = Inl e \<Longrightarrow> foreign e"
  by (auto simp: mkdtemp_def foreign_def split: sum.splits node.splits if_splits dest!: stat_errors)

lemma runLibreOfficeConversion_foreign:
  "runLibreOfficeConversion env p t fs = (Inl e, fs') \<Longrightarrow> foreign e"
  by (auto simp: runLibreOfficeConversion_def Let_def foreign_def
           split: prod.splits proc_end.splits option.splits if_splits)

lemma access_errors: "access fs p = Inl e \<Longrightarrow> e = ENOTDIR \<or> e = ENOENT"
  by (auto simp: access_def split: sum.splits dest: stat_errors)

lemma convertDocToDocx_foreign: "convertDocToDocx env p w = (Inl e, w') \<Longrightarrow> foreign e"
  by (auto simp: convertDocToDocx_def Let_def split: sum.splits prod.splits
           dest: mkdtemp_foreign runLibreOfficeConversion_foreign dest!: access_errors)
     (simp_all add: foreign_def)

lemma rm_recursive_errors: "rm_recursive fs p = Inl e \<Longrightarrow> e = ENOTDIR"
  by (auto simp: rm_recursive_def split: if_splits)

lemma convertDocument_errors:
  assumes "convertDocument env p w = (Inl e, w')"
  shows "foreign e \<or>
         (e = UnsupportedFileType p \<and>
          toLowerCase (extname (name_of p)) \<notin> {''.docx'', ''.doc'', ''.pdf''})"
proof -
  consider (docx) "toLowerCase (extname (name_of p)) = ''.docx''"
    | (doc) "toLowerCase (extname (name_of p)) = ''.doc''"
    | (pdf) "toLowerCase (extname (name_of p)) = ''.pdf''"
    | (other) "toLowerCase (extname (name_of p)) \<notin> {''.docx'', ''.doc'', ''.pdf''}"
    by auto
  then show ?thesis
  proof cases
    case docx
    with assms show ?thesis
      by (auto simp: convertDocument_def Let_def dest: convertDocxToMarkdown_foreign)
  next
    case doc
    with assms show ?thesis
      by (auto simp: convertDocument_def Let_def split: prod.splits sum.splits
               dest: convertDocxToMarkdown_foreign convertDocToDocx_foreign
               dest!: rm_recursive_errors)
         (simp add: foreign_def)
  next
    case pdf
    with assms show ?thesis
      by (auto simp: convertDocument_def Let_def dest: convertPdfToMarkdown_foreign)
  next
    case other
    with assms show ?thesis
      by (auto simp: convertDocument_def Let_def)
  qed
qed

lemma writeFile_foreign: "writeFile env fs p c = Inl e \<Longrightarrow> foreign e"
  by (auto simp: writeFile_def foreign_def
           split: if_splits sum.splits node.splits option.splits dest!: stat_errors)

lemma mkdir_recursive_foreign: "mkdir_recursive fs p = Inl e \<Longrightarrow> foreign e"
  by (auto simp: mkdir_recursive_def foreign_def dest!: mkdirs_errors)


lemma trim_empty_iff: "trim s = [] \<longleftrightarrow> blank s"
proof
  assume "trim s = []"
  then have a: "\<forall>x \<in> set (dropWhile isWhiteSpace s). isWhiteSpace x"
    by (simp add: trim_def dropWhile_eq_Nil_conv)
  show "blank s"
  proof (cases "dropWhile isWhiteSpace s")
    case Nil
    then show ?thesis by (simp add: blank_def dropWhile_eq_Nil_conv list_all_iff)
  next
    case (Cons x xs)
    then have "\<not> isWhiteSpace x" using hd_dropWhile[of isWhiteSpace s] by simp
    with a Cons show ?thesis by simp
  qed
next
  assume "blank s"
  then have d: "dropWhile isWhiteSpace s = []"
    by (simp add: blank_def dropWhile_eq_Nil_conv list_all_iff)
  show "trim s = []" unfolding trim_def d by simp
qed

lemma filter_nonempty_trim:
  "filter (\<lambda>line. length line > 0) (map trim (filter (\<lambda>line. trim line \<noteq> []) ls))
     = map trim (filter (\<lambda>line. trim line \<noteq> []) ls)"
  by (induction ls) auto

text \<open>
  C5: \<open>convertPdfToMarkdown\<close> returns the reformatting of the text that \<open>pdf-parse\<close> extracts
  from the bytes of the file, and so does \<open>convertDocument\<close> on a .pdf path. The
  reformatting (lines 110-118) splits on line feeds, drops the blank and white-space-only
  lines, trims each remaining line and joins with an empty line between, which is
  \<open>reformat_spec\<close>; the text \<open>"Line A\n\n  \nLine B  \n"\<close> gives exactly
  \<open>"Line A\n\nLine B"\<close>.
\<close>

theorem pdf_reformat:
  "(\<forall>fileBuffer extracted.
      readFile fs filePath = Inr fileBuffer \<longrightarrow>
      pdfGetText env fileBuffer = Inr extracted \<longrightarrow>
        convertPdfToMarkdown env fs filePath = Inr (reformat_spec extracted)) \<and>
   (\<forall>fileBuffer extracted.
      toLowerCase (extname (name_of filePath)) = ''.pdf'' \<longrightarrow>
      readFile (disk w) filePath = Inr fileBuffer \<longrightarrow>
      pdfGetText env fileBuffer = Inr extracted \<longrightarrow>
        fst (convertDocument env filePath w) = Inr (reformat_spec extracted)) \<and>
   reformatPdfText text = reformat_spec text \<and>
   reformatPdfText ''Line A\<newline>\<newline>  \<newline>Line B  \<newline>'' = ''Line A\<newline>\<newline>Line B''"
proof (intro conjI allI impI)
  show r: "reformatPdfText t = reformat_spec t" for t
    by (simp add: reformatPdfText_def reformat_spec_def filter_nonempty_trim trim_empty_iff)
  show "reformatPdfText ''Line A\<newline>\<newline>  \<newline>Line B  \<newline>'' = ''Line A\<newline>\<newline>Line B''"
    by (simp add: reformatPdfText_def trim_def isWhiteSpace_def)
  show c: "convertPdfToMarkdown env fs' filePath = Inr (reformat_spec extracted)"
    if "readFile fs' filePath = Inr fileBuffer" "pdfGetText env fileBuffer = Inr extracted"
    for fs' fileBuffer extracted
    using that by (simp add: convertPdfToMarkdown_def r)
  show "fst (convertDocument env filePath w) = Inr (reformat_spec extracted)"
    if "toLowerCase (extname (name_of filePath)) = ''.pdf''"
      "readFile (disk w) filePath = Inr fileBuffer" "pdfGetText env fileBuffer = Inr extracted"
    for fileBuffer extracted
    using that c[of "disk w" fileBuffer extracted] by (simp add: convertDocument_def Let_def)
qed

lemma ext_examples:
  "extname ''cv.Docx'' = ''.Docx''" "extname ''notes.txt'' = ''.txt''" "extname ''README'' = []"
  "extname ''a.docx'' = ''.docx''" "extname ''.bashrc'' = []" "extname ''..'' = []" "extname ''a.'' = ''.''"
  "extname ''a.tar.PDF'' = ''.PDF''"
  by (simp_all add: extname_def)

lemma supported_iff:
  "ext \<in> supportedExtensions \<longleftrightarrow>
     ext = ''.docx'' \<or> ext = ''.DOCX'' \<or> ext = ''.doc'' \<or> ext = ''.DOC'' \<or> ext = ''.pdf'' \<or> ext = ''.PDF''"
  by (auto simp: supportedExtensions_def)

lemma lower_supported:
  "ext \<in> supportedExtensions \<Longrightarrow> toLowerCase ext \<in> {''.docx'', ''.doc'', ''.pdf''}"
  by (auto simp: supportedExtensions_def toLowerCase_def toLowerChar_def)


lemma probeOutput_errors:
  "probeOutput env out c w = (Inl e, w') \<Longrightarrow> foreign e \<or> e = OutputIsDirectory"
  by (auto simp: probeOutput_def rm_force_def foreign_def
           split: sum.splits if_splits node.splits dest!: stat_errors)

lemma convertAndWrite_errors:
  "convertAndWrite env s t w = (Inl e, w') \<Longrightarrow>
   foreign e \<or> (e = UnsupportedFileType s \<and>
                toLowerCase (extname (name_of s)) \<notin> {''.docx'', ''.doc'', ''.pdf''})"
  by (auto simp: convertAndWrite_def split: prod.splits sum.splits
           dest: convertDocument_errors writeFile_foreign)

lemma convertSingleFile_errors:
  assumes "convertSingleFile env inp out c w = (Inl e, w')"
      and "extname (name_of inp) \<in> supportedExtensions"
  shows "foreign e \<or> e = OutputIsDirectory"
proof -
  have l: "toLowerCase (extname (name_of inp)) \<in> {''.docx'', ''.doc'', ''.pdf''}"
    by (rule lower_supported[OF assms(2)])
  have cw: "foreign e" if "convertAndWrite env inp out w2 = (Inl e, w')" for w2
    using convertAndWrite_errors[OF that] l by auto
  show ?thesis
  proof (cases "mkdir_recursive (disk w) (dirname out)")
    case (Inl e1)
    with assms have "e = e1" by (simp add: convertSingleFile_def)
    with Inl show ?thesis by (auto dest: mkdir_recursive_foreign)
  next
    case (Inr fs1)
    obtain r w2 where p: "probeOutput env out c (w\<lparr>disk := fs1\<rparr>) = (r, w2)"
      by (cases "probeOutput env out c (w\<lparr>disk := fs1\<rparr>)")
    show ?thesis
    proof (cases r)
      case (Inl e1)
      show ?thesis
      proof (cases "e1 = ENOENT")
        case True
        with assms Inr p Inl have "convertAndWrite env inp out w2 = (Inl e, w')"
          by (simp add: convertSingleFile_def)
        then show ?thesis using cw by blast
      next
        case False
        with assms Inr p Inl have "e = e1" by (simp add: convertSingleFile_def)
        with p Inl show ?thesis by (auto dest: probeOutput_errors)
      qed
    next
      case (Inr b)
      with assms \<open>mkdir_recursive (disk w) (dirname out) = Inr fs1\<close> p
      have "convertAndWrite env inp out w2 = (Inl e, w')"
        by (cases b) (simp_all add: convertSingleFile_def)
      then show ?thesis using cw by blast
    qed
  qed
qed

text \<open>
  C3: the format gate accepts a path exactly when its extension is one of the six literal
  strings .docx, .DOCX, .doc, .DOC, .pdf, .PDF. The extensions .Docx and .txt and the
  empty extension of an extensionless name are rejected. In single-file mode the rejection
  is the error \<open>UnsupportedInputFile\<close>, raised exactly for the unsupported extensions and
  leaving the world as it was; in directory mode the enumeration keeps exactly the regular
  files with a supported extension.
\<close>

theorem format_gate:
  "(ext \<in> supportedExtensions \<longleftrightarrow>
      ext = ''.docx'' \<or> ext = ''.DOCX'' \<or> ext = ''.doc'' \<or> ext = ''.DOC'' \<or>
      ext = ''.pdf'' \<or> ext = ''.PDF'') \<and>
   ''.Docx'' \<notin> supportedExtensions \<and> ''.txt'' \<notin> supportedExtensions \<and>
   [] \<notin> supportedExtensions \<and>
   extname ''cv.Docx'' = ''.Docx'' \<and> extname ''notes.txt'' = ''.txt'' \<and> extname ''README'' = [] \<and>
   (convertSingleFile env inputPath outputPath clearOutput w
      = (Inl (UnsupportedInputFile inputPath), w)
    \<longleftrightarrow> extname (name_of inputPath) \<notin> supportedExtensions) \<and>
   (fst (convertSingleFile env inputPath outputPath clearOutput w)
      = Inl (UnsupportedInputFile inputPath)
    \<longleftrightarrow> extname (name_of inputPath) \<notin> supportedExtensions) \<and>
   (entry \<in> set (eligible entries) \<longleftrightarrow>
      entry \<in> set entries \<and> isFile entry \<and> extname (name entry) \<in> supportedExtensions)"
proof -
  have a: "fst (convertSingleFile env inputPath outputPath clearOutput w)
             \<noteq> Inl (UnsupportedInputFile inputPath)"
    if s: "extname (name_of inputPath) \<in> supportedExtensions"
  proof
    assume f: "fst (convertSingleFile env inputPath outputPath clearOutput w)
                = Inl (UnsupportedInputFile inputPath)"
    obtain w' where "convertSingleFile env inputPath outputPath clearOutput w
                = (Inl (UnsupportedInputFile inputPath), w')"
      using f by (cases "convertSingleFile env inputPath outputPath clearOutput w") auto
    from convertSingleFile_errors[OF this s] show False by (simp add: foreign_def)
  qed
  have b: "convertSingleFile env inputPath outputPath clearOutput w
             = (Inl (UnsupportedInputFile inputPath), w)"
    if "extname (name_of inputPath) \<notin> supportedExtensions"
    using that by (simp add: convertSingleFile_def)
  have c: "(convertSingleFile env inputPath outputPath clearOutput w
      = (Inl (UnsupportedInputFile inputPath), w)
    \<longleftrightarrow> extname (name_of inputPath) \<notin> supportedExtensions)"
    using a b by (cases "extname (name_of inputPath) \<in> supportedExtensions") auto
  have d: "(fst (convertSingleFile env inputPath outputPath clearOutput w)
      = Inl (UnsupportedInputFile inputPath)
    \<longleftrightarrow> extname (name_of inputPath) \<notin> supportedExtensions)"
    using a b by (cases "extname (name_of inputPath) \<in> supportedExtensions") auto
  have e: "ext \<in> supportedExtensions \<longleftrightarrow>
      ext = ''.docx'' \<or> ext = ''.DOCX'' \<or> ext = ''.doc'' \<or> ext = ''.DOC'' \<or>
      ext = ''.pdf'' \<or> ext = ''.PDF''"
    by (rule supported_iff)
  have f: "''.Docx'' \<notin> supportedExtensions" "''.txt'' \<notin> supportedExtensions"
    "[] \<notin> supportedExtensions"
    by (simp_all add: supportedExtensions_def)
  have g: "extname ''cv.Docx'' = ''.Docx''" "extname ''notes.txt'' = ''.txt''"
    "extname ''README'' = []"
    by (simp_all add: extname_def)
  have h: "entry \<in> set (eligible entries) \<longleftrightarrow>
      entry \<in> set entries \<and> isFile entry \<and> extname (name entry) \<in> supportedExtensions"
    by (auto simp: eligible_def)
  show ?thesis by (intro conjI e f g c d h)
qed

theorem format_gate_witness:
  "convertSingleFile demo_env [''in'', ''cv.Docx''] [''out'', ''cv.md''] False (demo_world [])
     = (Inl (UnsupportedInputFile [''in'', ''cv.Docx'']), demo_world []) \<and>
   fst (convertSingleFile demo_env [''in'', ''cv.DOCX''] [''out'', ''cv.md''] False (demo_world []))
     \<noteq> Inl (UnsupportedInputFile [''in'', ''cv.DOCX'']) \<and>
   eligible [Dirent ''a.docx'' True, Dirent ''b.Docx'' True, Dirent ''c.txt'' True,
             Dirent ''d'' True, Dirent ''e.PDF'' True, Dirent ''f.doc'' False]
     = [Dirent ''a.docx'' True, Dirent ''e.PDF'' True]"
proof -
  have 1: "extname (name_of [''in'', ''cv.Docx'']) \<notin> supportedExtensions"
    by (simp add: extname_def name_of_def supportedExtensions_def)
  have 2: "extname (name_of [''in'', ''cv.DOCX'']) \<in> supportedExtensions"
    by (simp add: extname_def name_of_def supportedExtensions_def)
  have 3: "eligible [Dirent ''a.docx'' True, Dirent ''b.Docx'' True, Dirent ''c.txt'' True,
             Dirent ''d'' True, Dirent ''e.PDF'' True, Dirent ''f.doc'' False]
     = [Dirent ''a.docx'' True, Dirent ''e.PDF'' True]"
    by (simp add: eligible_def extname_def supportedExtensions_def)
  from 1 2 3
    format_gate[of _ demo_env "[''in'', ''cv.Docx'']" "[''out'', ''cv.md'']" False "demo_world []"]
    format_gate[of _ demo_env "[''in'', ''cv.DOCX'']" "[''out'', ''cv.md'']" False "demo_world []"]
  show ?thesis by simp
qed

text \<open>
  C9: for a path whose extension is in the supported set, lowercasing the extension gives
  .docx, .doc or .pdf, each handled by an earlier branch of \<open>convertDocument\<close>, so the
  "Unsupported file type" error is never the result.
\<close>

theorem unsupported_branch_unreachable:
  assumes "extname (name_of filePath) \<in> supportedExtensions"
  shows "toLowerCase (extname (name_of filePath)) \<in> {''.docx'', ''.doc'', ''.pdf''} \<and>
         (\<forall>q. fst (convertDocument env filePath w) \<noteq> Inl (UnsupportedFileType q))"
proof
  show l: "toLowerCase (extname (name_of filePath)) \<in> {''.docx'', ''.doc'', ''.pdf''}"
    by (rule lower_supported[OF assms])
  show "\<forall>q. fst (convertDocument env filePath w) \<noteq> Inl (UnsupportedFileType q)"
  proof (intro allI notI)
    fix q
    assume f: "fst (convertDocument env filePath w) = Inl (UnsupportedFileType q)"
    obtain w' where "convertDocument env filePath w = (Inl (UnsupportedFileType q), w')"
      using f by (cases "convertDocument env filePath w") auto
    from convertDocument_errors[OF this] l show False by (auto simp: foreign_def)
  qed
qed

theorem unsupported_branch_unreachable_witness:
  "extname (name_of [''in'', ''cv.PDF'']) \<in> supportedExtensions \<and>
   toLowerCase (extname (name_of [''in'', ''cv.PDF''])) = ''.pdf'' \<and>
   fst (convertDocument demo_env [''in'', ''cv.PDF''] (demo_world []))
     \<noteq> Inl (UnsupportedFileType [''in'', ''cv.PDF''])"
proof -
  have 1: "extname (name_of [''in'', ''cv.PDF'']) \<in> supportedExtensions"
    by (simp add: extname_def name_of_def supportedExtensions_def)
  have 2: "toLowerCase (extname (name_of [''in'', ''cv.PDF''])) = ''.pdf''"
    by (simp add: extname_def name_of_def toLowerCase_def toLowerChar_def)
  from 1 2 unsupported_branch_unreachable[OF 1, of demo_env "demo_world []"]
  show ?thesis by simp
qed


subsection \<open>mkdir before the probe\<close>

lemma prefix_butlast_neq: "prefix q (butlast p) \<Longrightarrow> q \<noteq> p \<or> q = []"
proof (cases p rule: rev_cases)
  case Nil
  assume "prefix q (butlast p)"
  with Nil show ?thesis by simp
next
  case (snoc d x)
  assume "prefix q (butlast p)"
  with snoc have "length q \<le> length d" by (auto dest: prefix_length_le)
  with snoc show ?thesis by auto
qed

lemma mkdir_recursive_lookup:
  "mkdir_recursive fs d = Inr fs1 \<Longrightarrow>
   lookup fs1 p = (case lookup fs p of Some n \<Rightarrow> Some n | None \<Rightarrow> if prefix p d then Some Dir else None)"
  by (simp add: mkdir_recursive_def mkdirs_lookup in_set_prefixes)

lemma mkdir_recursive_made:
  "mkdir_recursive fs d = Inr fs1 \<Longrightarrow> list_all (\<lambda>q. lookup fs1 q = Some Dir) (prefixes d)"
  by (auto simp: mkdir_recursive_def list_all_iff dest: mkdirs_made)

lemma mkdir_recursive_contents: "mkdir_recursive fs d = Inr fs1 \<Longrightarrow> contents fs1 = contents fs"
  by (simp add: mkdir_recursive_def contents_mkdirs)

lemma mkdir_dirname_lookup:
  assumes "mkdir_recursive fs (dirname out) = Inr fs1"
  shows "lookup fs1 out = lookup fs out"
proof (cases "out = []")
  case True
  then show ?thesis by simp
next
  case False
  have "\<not> prefix out (dirname out)"
    using prefix_butlast_neq[of out out] False by (auto simp: dirname_def)
  with mkdir_recursive_lookup[OF assms, of out] show ?thesis
    by (auto split: option.splits)
qed

lemma mkdir_dirname_notdir:
  assumes "mkdir_recursive fs (dirname out) = Inr fs1"
  shows "\<not> notdir_above fs1 out"
proof (cases out rule: rev_cases)
  case Nil
  then show ?thesis by simp
next
  case (snoc d x)
  with mkdir_recursive_made[OF assms] have "list_all (\<lambda>q. lookup fs1 q = Some Dir) (prefixes d)"
    by (simp add: dirname_def)
  then show ?thesis using snoc
    by (auto simp: notdir_above_snoc list_all_iff in_set_prefixes)
qed

lemma mkdir_dirname_stat:
  assumes "mkdir_recursive fs (dirname out) = Inr fs1"
  shows "stat fs1 out = (case lookup fs out of None \<Rightarrow> Inl ENOENT | Some n \<Rightarrow> Inr n)"
  using mkdir_dirname_notdir[OF assms] mkdir_dirname_lookup[OF assms]
  by (simp add: stat_def)

lemma stat_Inr_lookup: "stat fs p = Inr n \<Longrightarrow> lookup fs p = Some n \<and> \<not> notdir_above fs p"
  by (auto simp: stat_def split: if_splits option.splits)

lemma mkdir_dirname_succeeds:
  assumes "stat fs out = Inr n"
  shows "\<exists>fs1. mkdir_recursive fs (dirname out) = Inr fs1"
proof -
  have "list_all (\<lambda>q. lookup fs q = None \<or> lookup fs q = Some Dir) (prefixes (dirname out))"
  proof (cases out rule: rev_cases)
    case Nil
    then show ?thesis by (simp add: dirname_def)
  next
    case (snoc d x)
    from stat_Inr_lookup[OF assms] have "\<not> notdir_above fs (d @ [x])" using snoc by simp
    then show ?thesis using snoc
      by (auto simp: notdir_above_snoc list_all_iff in_set_prefixes dirname_def)
  qed
  then show ?thesis unfolding mkdir_recursive_def by (rule mkdirs_succeeds)
qed

subsection \<open>convertAndWrite\<close>

lemma writeFile_Inr: "writeFile env fs p c = Inr fs' \<Longrightarrow> fs' = AList.update p (File c) fs"
  by (auto simp: writeFile_def split: if_splits sum.splits node.splits option.splits)

lemma convertAndWrite_Inl:
  assumes "convertAndWrite env s t w = (Inl e, w')"
  shows "(\<exists>r. convertDocument env s w = (r, w')) \<and> console w' = console w"
proof (cases "convertDocument env s w")
  case (Pair r w1)
  with assms show ?thesis
    by (auto simp: convertAndWrite_def split: sum.splits dest: convertDocument_world)
qed

lemma convertAndWrite_Inr:
  assumes "convertAndWrite env s t w = (Inr u, w')"
  shows "\<exists>md. fst (convertDocument env s w) = Inr md \<and>
              writeFile env (disk w) t md = Inr (disk w') \<and>
              disk w' = AList.update t (File md) (disk w) \<and>
              console w' = console w @ [LogConverted s t] \<and>
              exitCode w' = exitCode w \<and> adapterCalls w' = adapterCalls w @ [s]"
proof (cases "convertDocument env s w")
  case (Pair r w1)
  with assms obtain md fs' where r: "r = Inr md"
    and wf: "writeFile env (disk w1) t md = Inr fs'"
    and w': "w' = say (LogConverted s t) (w1\<lparr>disk := fs'\<rparr>)"
    by (auto simp: convertAndWrite_def split: sum.splits)
  from Pair r have d: "disk w1 = disk w" by (auto dest: convertDocument_Inr_disk)
  from convertDocument_world[OF Pair] w' wf d Pair r writeFile_Inr[OF wf]
  show ?thesis by (auto simp: say_def)
qed


lemma convertAndWrite_lookup_keep:
  assumes "convertAndWrite env s t w = (r, w')" and "lookup (disk w) q = Some n"
      and "q \<noteq> t \<or> q = []"
  shows "lookup (disk w') q = Some n"
proof (cases r)
  case (Inl e)
  with assms(1) obtain r1 where "convertDocument env s w = (r1, w')"
    by (auto dest: convertAndWrite_Inl)
  from convertDocument_lookup_mono[OF this assms(2)] show ?thesis .
next
  case (Inr u)
  with assms(1) obtain md where "disk w' = AList.update t (File md) (disk w)"
    by (auto dest: convertAndWrite_Inr)
  with assms(2,3) show ?thesis by (auto simp: lookup_update)
qed

lemma convertAndWrite_Inl_target:
  assumes "convertAndWrite env s t w = (Inl e, w')"
      and "lookup (disk w) t = None" and "lookup (disk w) (dirname t) = Some Dir"
  shows "(lookup (disk w') t = None \<or> lookup (disk w') t = Some Dir) \<and>
         (dirname t \<noteq> tmpdir env \<longrightarrow> lookup (disk w') t = None)"
proof -
  from assms(1) obtain r where c: "convertDocument env s w = (r, w')"
    by (auto dest: convertAndWrite_Inl)
  show ?thesis
  proof (cases "lookup (disk w') t")
    case None
    then show ?thesis by simp
  next
    case (Some n)
    from convertDocument_lookup_new[OF c assms(2) Some]
    have fresh: "lookup (disk w) (tempDirName env (disk w)) = None"
      and alt: "(t = tempDirName env (disk w) \<and> n = Dir) \<or>
                (\<exists>x c. t = path_join (tempDirName env (disk w)) x \<and> n = File c)"
      by auto
    from alt show ?thesis
    proof
      assume "t = tempDirName env (disk w) \<and> n = Dir"
      with Some show ?thesis by (auto simp: tempDirName_def path_join_def dirname_def)
    next
      assume "\<exists>x c. t = path_join (tempDirName env (disk w)) x \<and> n = File c"
      then have "dirname t = tempDirName env (disk w)"
        by (auto simp: path_join_def dirname_def)
      with fresh assms(3) show ?thesis by simp
    qed
  qed
qed


lemma probeOutput_Dir:
  "stat (disk w) out = Inr Dir \<Longrightarrow> probeOutput env out c w = (Inl OutputIsDirectory, w)"
  by (simp add: probeOutput_def)

text \<open>
  C6: in single-file mode, when the output path exists and is a directory, the conversion
  fails with an error whatever \<open>clearOutput\<close> is (the directory error for a supported
  input, the unsupported-input error otherwise); the regular files of the file system
  and their contents are as before, \<open>convertDocument\<close> is not invoked, nothing is
  reported as converted, and \<open>main\<close> sets exit code 1.
\<close>

theorem output_is_directory:
  assumes "stat (disk w) outputPath = Inr Dir"
  shows "fst (convertSingleFile env inputPath outputPath clearOutput w)
           = Inl (if extname (name_of inputPath) \<in> supportedExtensions
                  then OutputIsDirectory else UnsupportedInputFile inputPath) \<and>
         contents (disk (snd (convertSingleFile env inputPath outputPath clearOutput w)))
           = contents (disk w) \<and>
         adapterCalls (snd (convertSingleFile env inputPath outputPath clearOutput w))
           = adapterCalls w \<and>
         console (snd (convertSingleFile env inputPath outputPath clearOutput w)) = console w \<and>
         (\<forall>c. stat (disk w) inputPath = Inr (File c) \<longrightarrow>
              exitCode (main env inputPath outputPath clearOutput w) = 1)"
proof -
  define res where "res = (if extname (name_of inputPath) \<in> supportedExtensions
                     then OutputIsDirectory else UnsupportedInputFile inputPath)"
  have r: "\<exists>w'. convertSingleFile env inputPath outputPath clearOutput w = (Inl res, w') \<and>
             contents (disk w') = contents (disk w) \<and> adapterCalls w' = adapterCalls w \<and>
             console w' = console w"
  proof (cases "extname (name_of inputPath) \<in> supportedExtensions")
    case False
    then have "convertSingleFile env inputPath outputPath clearOutput w = (Inl res, w)"
      by (simp add: convertSingleFile_def res_def)
    then show ?thesis by simp
  next
    case True
    from mkdir_dirname_succeeds[OF assms] obtain fs1
      where m: "mkdir_recursive (disk w) (dirname outputPath) = Inr fs1" by blast
    from assms have "lookup (disk w) outputPath = Some Dir" by (simp add: stat_Inr_lookup)
    with mkdir_dirname_stat[OF m] have "stat (disk (w\<lparr>disk := fs1\<rparr>)) outputPath = Inr Dir"
      by simp
    from probeOutput_Dir[OF this] True m
    have "convertSingleFile env inputPath outputPath clearOutput w
            = (Inl res, w\<lparr>disk := fs1\<rparr>)"
      by (simp add: convertSingleFile_def res_def)
    with mkdir_recursive_contents[OF m] show ?thesis by simp
  qed
  then obtain w' where 1: "convertSingleFile env inputPath outputPath clearOutput w
             = (Inl res, w')" and 2: "contents (disk w') = contents (disk w)"
    "adapterCalls w' = adapterCalls w" "console w' = console w"
    by blast
  have "exitCode (main env inputPath outputPath clearOutput w) = 1"
    if "stat (disk w) inputPath = Inr (File c)" for c
    using that 1 by (simp add: main_def say_def)
  with 1 2 show ?thesis unfolding res_def by simp
qed

lemmas fs_eval =
  stat_def access_def notdir_above_def lookup_def readFile_def rm_force_def rm_recursive_def
  mkdir_recursive_def writeFile_def mkdtemp_def tempDirName_def readdir_def
  dirname_def path_join_def name_of_def

lemmas string_eval =
  extname_def basename_def supportedExtensions_def toLowerCase_def toLowerChar_def
  trim_def isWhiteSpace_def

lemmas convert_eval =
  convertSingleFile_def probeOutput_def convertAndWrite_def convertDocument_def
  convertDocxToMarkdown_def convertPdfToMarkdown_def convertDocToDocx_def
  runLibreOfficeConversion_def reformatPdfText_def say_def
  convertDirectory_def convertEntry_def prepareTarget_def eligible_def
  sourcePath_def targetPath_def main_def

theorem output_is_directory_witness:
  "stat (disk (demo_world demo_disk)) [''out'', ''dir.md''] = Inr Dir \<and>
   fst (convertSingleFile demo_env [''in'', ''a.docx''] [''out'', ''dir.md''] True
          (demo_world demo_disk)) = Inl OutputIsDirectory \<and>
   fst (convertSingleFile demo_env [''in'', ''a.docx''] [''out'', ''dir.md''] False
          (demo_world demo_disk)) = Inl OutputIsDirectory \<and>
   adapterCalls (snd (convertSingleFile demo_env [''in'', ''a.docx''] [''out'', ''dir.md''] True
          (demo_world demo_disk))) = [] \<and>
   exitCode (main demo_env [''in'', ''a.docx''] [''out'', ''dir.md''] True
          (demo_world demo_disk)) = 1"
proof -
  have h: "stat (disk (demo_world demo_disk)) [''out'', ''dir.md''] = Inr Dir"
    by (simp add: demo_world_def demo_disk_def fs_eval)
  have i: "stat (disk (demo_world demo_disk)) [''in'', ''a.docx''] = Inr (File ''alpha'')"
    by (simp add: demo_world_def demo_disk_def fs_eval)
  have s: "extname (name_of [''in'', ''a.docx'']) \<in> supportedExtensions"
    by (simp add: string_eval name_of_def)
  have a: "adapterCalls (demo_world demo_disk) = []"
    by (simp add: demo_world_def)
  from h i s a
    output_is_directory[OF h, of demo_env "[''in'', ''a.docx'']" True]
    output_is_directory[OF h, of demo_env "[''in'', ''a.docx'']" False]
  show ?thesis by simp
qed


lemma probeOutput_disk:
  "probeOutput env out c w = (r, w2) \<Longrightarrow>
   disk w2 = disk w \<or> disk w2 = AList.delete out (disk w)"
  by (auto simp: probeOutput_def rm_force_def say_def split: sum.splits if_splits node.splits)

lemma rm_force_File:
  "stat fs p = Inr (File old) \<Longrightarrow>
   rm_force env fs p = (if rmDenied env p then Inl EACCES else Inr (AList.delete p fs))"
  by (simp add: rm_force_def)

lemma rm_force_not_ENOENT: "rm_force env fs p = Inl e \<Longrightarrow> e \<noteq> ENOENT"
  by (auto simp: rm_force_def split: sum.splits node.splits if_splits)

lemma probeOutput_File_clear:
  "stat (disk w) out = Inr (File old) \<Longrightarrow> rm_force env (disk w) out = Inr fs' \<Longrightarrow>
   probeOutput env out True w = (Inr False, w\<lparr>disk := fs'\<rparr>)"
  by (simp add: probeOutput_def)

lemma probeOutput_File_refused:
  "stat (disk w) out = Inr (File old) \<Longrightarrow> rm_force env (disk w) out = Inl e \<Longrightarrow>
   probeOutput env out True w = (Inl e, w)"
  by (simp add: probeOutput_def)

lemma probeOutput_skip:
  "stat (disk w) out = Inr n \<Longrightarrow> n \<noteq> Dir \<Longrightarrow>
   probeOutput env out False w = (Inr True, say (LogSkipping out) w)"
  by (simp add: probeOutput_def)

lemma convertSingleFile_cases:
  assumes "extname (name_of inp) \<in> supportedExtensions"
      and "mkdir_recursive (disk w) (dirname out) = Inr fs1"
      and "probeOutput env out c (w\<lparr>disk := fs1\<rparr>) = (r, w2)"
  shows "convertSingleFile env inp out c w = (Inr (), w2) \<or>
         (\<exists>e. convertSingleFile env inp out c w = (Inl e, w2)) \<or>
         convertSingleFile env inp out c w = convertAndWrite env inp out w2"
  using assms by (cases r) (auto simp: convertSingleFile_def split: bool.splits)

text \<open>
  C8: in single-file mode with \<open>clearOutput\<close>, a supported input and a regular file at the
  output path, the file is removed before the conversion runs. When the removal is
  refused, the run ends with that error, \<open>convertDocument\<close> is not invoked and the file
  stays. When the removal succeeds, the run is the conversion and write on the file system
  without the file; when that run then fails, no regular file is at the output path
  (nothing at all, unless the output path lies directly in the temporary directory), and
  \<open>main\<close> reports the error and sets exit code 1.
\<close>

theorem clear_output_deletes_before_conversion:
  assumes "extname (name_of inputPath) \<in> supportedExtensions"
      and "stat (disk w) outputPath = Inr (File old)"
  shows "(\<exists>fs1. mkdir_recursive (disk w) (dirname outputPath) = Inr fs1) \<and>
         (\<forall>fs1. mkdir_recursive (disk w) (dirname outputPath) = Inr fs1 \<longrightarrow>
           lookup fs1 outputPath = Some (File old) \<and>
           (\<forall>e. rm_force env fs1 outputPath = Inl e \<longrightarrow>
                convertSingleFile env inputPath outputPath True w
                  = (Inl e, w\<lparr>disk := fs1\<rparr>)) \<and>
           (\<forall>fs'. rm_force env fs1 outputPath = Inr fs' \<longrightarrow>
                fs' = AList.delete outputPath fs1 \<and>
                lookup fs' outputPath = None \<and>
                convertSingleFile env inputPath outputPath True w
                  = convertAndWrite env inputPath outputPath (w\<lparr>disk := fs'\<rparr>) \<and>
                (\<forall>e. fst (convertSingleFile env inputPath outputPath True w) = Inl e \<longrightarrow>
                     contents (disk (snd (convertSingleFile env inputPath outputPath True w)))
                       outputPath = None \<and>
                     (dirname outputPath \<noteq> tmpdir env \<longrightarrow>
                        lookup (disk (snd (convertSingleFile env inputPath outputPath True w)))
                          outputPath = None) \<and>
                     (\<forall>c. stat (disk w) inputPath = Inr (File c) \<longrightarrow>
                        exitCode (main env inputPath outputPath True w) = 1 \<and>
                        last (console (main env inputPath outputPath True w)) = ErrProcess e))))"
    (is "?A \<and> ?B")
proof (rule conjI)
  show ?A by (rule mkdir_dirname_succeeds[OF assms(2)])
next
  show ?B
  proof (intro allI impI)
    fix fs1
    assume m: "mkdir_recursive (disk w) (dirname outputPath) = Inr fs1"
    from assms(2) have l: "lookup (disk w) outputPath = Some (File old)"
      by (simp add: stat_Inr_lookup)
    then have ne: "outputPath \<noteq> []" by auto
    from mkdir_dirname_stat[OF m] l
    have st: "stat (disk (w\<lparr>disk := fs1\<rparr>)) outputPath = Inr (File old)" by simp
    then have st1: "stat fs1 outputPath = Inr (File old)" by simp
    have l1: "lookup fs1 outputPath = Some (File old)"
      using st1 by (simp add: stat_Inr_lookup)
    have refused: "convertSingleFile env inputPath outputPath True w = (Inl e, w\<lparr>disk := fs1\<rparr>)"
      if r: "rm_force env fs1 outputPath = Inl e" for e
    proof -
      have "probeOutput env outputPath True (w\<lparr>disk := fs1\<rparr>) = (Inl e, w\<lparr>disk := fs1\<rparr>)"
        by (rule probeOutput_File_refused[OF st]) (simp add: r)
      with assms(1) m rm_force_not_ENOENT[OF r] show ?thesis
        by (simp add: convertSingleFile_def)
    qed
    have removed: "fs' = AList.delete outputPath fs1 \<and>
                  lookup fs' outputPath = None \<and>
                  convertSingleFile env inputPath outputPath True w
                    = convertAndWrite env inputPath outputPath (w\<lparr>disk := fs'\<rparr>) \<and>
                  (\<forall>e. fst (convertSingleFile env inputPath outputPath True w) = Inl e \<longrightarrow>
                       contents (disk (snd (convertSingleFile env inputPath outputPath True w)))
                         outputPath = None \<and>
                       (dirname outputPath \<noteq> tmpdir env \<longrightarrow>
                          lookup (disk (snd (convertSingleFile env inputPath outputPath True w)))
                            outputPath = None) \<and>
                       (\<forall>c. stat (disk w) inputPath = Inr (File c) \<longrightarrow>
                          exitCode (main env inputPath outputPath True w) = 1 \<and>
                          last (console (main env inputPath outputPath True w)) = ErrProcess e))"
      if r: "rm_force env fs1 outputPath = Inr fs'" for fs'
    proof -
      from r rm_force_File[OF st1, of env] have fs': "fs' = AList.delete outputPath fs1"
        by (simp split: if_splits)
      define w2 where "w2 = w\<lparr>disk := fs'\<rparr>"
      have "probeOutput env outputPath True (w\<lparr>disk := fs1\<rparr>) = (Inr False, w2)"
        unfolding w2_def using probeOutput_File_clear[OF st, of env fs'] r by simp
      then have eq: "convertSingleFile env inputPath outputPath True w
                  = convertAndWrite env inputPath outputPath w2"
        using assms(1) m by (simp add: convertSingleFile_def)
      have gone: "lookup (disk w2) outputPath = None"
        using ne by (simp add: w2_def fs' lookup_delete)
      have "lookup fs1 (dirname outputPath) = Some Dir"
        using mkdir_recursive_made[OF m] by (simp add: list_all_iff in_set_prefixes)
      moreover have "dirname outputPath \<noteq> outputPath \<or> dirname outputPath = []"
        using prefix_butlast_neq[of "dirname outputPath" outputPath] by (simp add: dirname_def)
      ultimately have parent: "lookup (disk w2) (dirname outputPath) = Some Dir"
        by (auto simp: w2_def fs' lookup_delete)
      have fail: "contents (disk (snd (convertSingleFile env inputPath outputPath True w)))
                    outputPath = None \<and>
                  (dirname outputPath \<noteq> tmpdir env \<longrightarrow>
                     lookup (disk (snd (convertSingleFile env inputPath outputPath True w)))
                       outputPath = None) \<and>
                  (\<forall>c. stat (disk w) inputPath = Inr (File c) \<longrightarrow>
                     exitCode (main env inputPath outputPath True w) = 1 \<and>
                     last (console (main env inputPath outputPath True w)) = ErrProcess e)"
        if f: "fst (convertSingleFile env inputPath outputPath True w) = Inl e" for e
      proof -
        obtain w' where c: "convertSingleFile env inputPath outputPath True w = (Inl e, w')"
          using f by (cases "convertSingleFile env inputPath outputPath True w") auto
        with eq have "convertAndWrite env inputPath outputPath w2 = (Inl e, w')" by simp
        from convertAndWrite_Inl_target[OF this gone parent]
        have "contents (disk w') outputPath = None"
          and "dirname outputPath \<noteq> tmpdir env \<longrightarrow> lookup (disk w') outputPath = None"
          by (auto simp: contents_def)
        moreover have "exitCode (main env inputPath outputPath True w) = 1 \<and>
                     last (console (main env inputPath outputPath True w)) = ErrProcess e"
          if "stat (disk w) inputPath = Inr (File c)" for c
          using that c by (simp add: main_def say_def)
        ultimately show ?thesis using c by simp
      qed
      from fs' gone eq fail show ?thesis unfolding w2_def by auto
    qed
    from l1 refused removed
    show "lookup fs1 outputPath = Some (File old) \<and>
             (\<forall>e. rm_force env fs1 outputPath = Inl e \<longrightarrow>
                  convertSingleFile env inputPath outputPath True w
                    = (Inl e, w\<lparr>disk := fs1\<rparr>)) \<and>
             (\<forall>fs'. rm_force env fs1 outputPath = Inr fs' \<longrightarrow>
                  fs' = AList.delete outputPath fs1 \<and>
                  lookup fs' outputPath = None \<and>
                  convertSingleFile env inputPath outputPath True w
                    = convertAndWrite env inputPath outputPath (w\<lparr>disk := fs'\<rparr>) \<and>
                  (\<forall>e. fst (convertSingleFile env inputPath outputPath True w) = Inl e \<longrightarrow>
                       contents (disk (snd (convertSingleFile env inputPath outputPath True w)))
                         outputPath = None \<and>
                       (dirname outputPath \<noteq> tmpdir env \<longrightarrow>
                          lookup (disk (snd (convertSingleFile env inputPath outputPath True w)))
                            outputPath = None) \<and>
                       (\<forall>c. stat (disk w) inputPath = Inr (File c) \<longrightarrow>
                          exitCode (main env inputPath outputPath True w) = 1 \<and>
                          last (console (main env inputPath outputPath True w)) = ErrProcess e)))"
      by blast
  qed
qed

theorem clear_output_deletes_before_conversion_witness:
  "extname (name_of [''in'', ''b.pdf'']) \<in> supportedExtensions \<and>
   stat (disk (demo_world demo_disk)) [''out'', ''old.md''] = Inr (File ''old'') \<and>
   rm_force demo_env demo_disk [''out'', ''old.md'']
     = Inr (AList.delete [''out'', ''old.md''] demo_disk) \<and>
   fst (convertSingleFile demo_env [''in'', ''b.pdf''] [''out'', ''old.md''] True
          (demo_world demo_disk)) = Inl (PdfParseError ''bad pdf'') \<and>
   lookup (disk (snd (convertSingleFile demo_env [''in'', ''b.pdf''] [''out'', ''old.md''] True
          (demo_world demo_disk)))) [''out'', ''old.md''] = None \<and>
   exitCode (main demo_env [''in'', ''b.pdf''] [''out'', ''old.md''] True
          (demo_world demo_disk)) = 1 \<and>
   rm_force keeping_env demo_disk [''out'', ''old.md''] = Inl EACCES \<and>
   convertSingleFile keeping_env [''in'', ''b.pdf''] [''out'', ''old.md''] True
       (demo_world demo_disk)
     = (Inl EACCES, demo_world demo_disk) \<and>
   lookup demo_disk [''out'', ''old.md''] = Some (File ''old'')"
proof -
  have s: "extname (name_of [''in'', ''b.pdf'']) \<in> supportedExtensions"
    by (simp add: string_eval name_of_def)
  have h: "stat (disk (demo_world demo_disk)) [''out'', ''old.md''] = Inr (File ''old'')"
    by (simp add: demo_world_def demo_disk_def fs_eval)
  have i: "stat (disk (demo_world demo_disk)) [''in'', ''b.pdf''] = Inr (File ''corrupt'')"
    by (simp add: demo_world_def demo_disk_def fs_eval)
  have t: "dirname [''out'', ''old.md''] \<noteq> tmpdir demo_env"
    by (simp add: dirname_def demo_env_def)
  have m: "mkdir_recursive (disk (demo_world demo_disk)) (dirname [''out'', ''old.md''])
             = Inr demo_disk"
    by (simp add: demo_world_def demo_disk_def fs_eval)
  have st: "stat demo_disk [''out'', ''old.md''] = Inr (File ''old'')"
    using h by (simp add: demo_world_def)
  have r: "rm_force demo_env demo_disk [''out'', ''old.md'']
             = Inr (AList.delete [''out'', ''old.md''] demo_disk)"
    using rm_force_File[OF st, of demo_env] by (simp add: demo_env_def)
  have k: "rm_force keeping_env demo_disk [''out'', ''old.md''] = Inl EACCES"
    using rm_force_File[OF st, of keeping_env] by (simp add: keeping_env_def demo_env_def)
  have f: "fst (convertSingleFile demo_env [''in'', ''b.pdf''] [''out'', ''old.md''] True
          (demo_world demo_disk)) = Inl (PdfParseError ''bad pdf'')"
    by (simp add: demo_world_def demo_disk_def demo_env_def fs_eval string_eval convert_eval)
  have d: "(demo_world demo_disk)\<lparr>disk := demo_disk\<rparr> = demo_world demo_disk"
    by (simp add: demo_world_def)
  note T = clear_output_deletes_before_conversion[OF s h, THEN conjunct2, rule_format, OF m]
  note R = T[of demo_env, THEN conjunct2, THEN conjunct2, rule_format, OF r,
             THEN conjunct2, THEN conjunct2, THEN conjunct2, rule_format, OF f]
  from R[THEN conjunct2, THEN conjunct1, rule_format, OF t]
       R[THEN conjunct2, THEN conjunct2, rule_format, OF i]
  have a: "lookup (disk (snd (convertSingleFile demo_env [''in'', ''b.pdf''] [''out'', ''old.md''] True
          (demo_world demo_disk)))) [''out'', ''old.md''] = None \<and>
        exitCode (main demo_env [''in'', ''b.pdf''] [''out'', ''old.md''] True
          (demo_world demo_disk)) = 1"
    by simp
  from T[of keeping_env, THEN conjunct2, THEN conjunct1, rule_format, OF k]
  have b: "convertSingleFile keeping_env [''in'', ''b.pdf''] [''out'', ''old.md''] True
       (demo_world demo_disk)
     = (Inl EACCES, (demo_world demo_disk)\<lparr>disk := demo_disk\<rparr>)" .
  have l: "lookup demo_disk [''out'', ''old.md''] = Some (File ''old'')"
    using st by (simp add: stat_Inr_lookup)
  from s h r f a k b l show ?thesis by (simp add: d)
qed

text \<open>
  C10: in single-file mode the unsupported-extension rejection returns with the world
  untouched. For a supported extension the parent directory of the output path is
  created recursively first: when that fails the run ends with that error and nothing
  else happens; when it succeeds the output path is probed on the file system that has
  the directories, and the parent directory and all its ancestors are directories at the
  end of the run whatever its outcome, in particular when the run skips because the
  output exists (the file system is then the one \<open>mkdir\<close> left) and when the conversion
  fails.
\<close>

theorem parent_directory_created:
  "(extname (name_of inputPath) \<notin> supportedExtensions \<longrightarrow>
      convertSingleFile env inputPath outputPath clearOutput w
        = (Inl (UnsupportedInputFile inputPath), w)) \<and>
   (extname (name_of inputPath) \<in> supportedExtensions \<longrightarrow>
      (\<forall>e. mkdir_recursive (disk w) (dirname outputPath) = Inl e \<longrightarrow>
           convertSingleFile env inputPath outputPath clearOutput w = (Inl e, w)) \<and>
      (\<forall>fs1. mkdir_recursive (disk w) (dirname outputPath) = Inr fs1 \<longrightarrow>
           list_all (\<lambda>q. lookup fs1 q = Some Dir) (prefixes (dirname outputPath)) \<and>
           list_all (\<lambda>q. lookup (disk (snd (convertSingleFile env inputPath outputPath
                                               clearOutput w))) q = Some Dir)
             (prefixes (dirname outputPath)) \<and>
           (\<forall>n. \<not> clearOutput \<and> stat fs1 outputPath = Inr n \<and> n \<noteq> Dir \<longrightarrow>
              convertSingleFile env inputPath outputPath clearOutput w
                = (Inr (), say (LogSkipping outputPath) (w\<lparr>disk := fs1\<rparr>)))))"
proof (intro conjI impI allI)
  assume "extname (name_of inputPath) \<notin> supportedExtensions"
  then show "convertSingleFile env inputPath outputPath clearOutput w
        = (Inl (UnsupportedInputFile inputPath), w)"
    by (simp add: convertSingleFile_def)
next
  fix e
  assume "extname (name_of inputPath) \<in> supportedExtensions"
    and "mkdir_recursive (disk w) (dirname outputPath) = Inl e"
  then show "convertSingleFile env inputPath outputPath clearOutput w = (Inl e, w)"
    by (simp add: convertSingleFile_def)
next
  fix fs1
  assume "mkdir_recursive (disk w) (dirname outputPath) = Inr fs1"
  then show "list_all (\<lambda>q. lookup fs1 q = Some Dir) (prefixes (dirname outputPath))"
    by (rule mkdir_recursive_made)
next
  fix fs1
  assume s: "extname (name_of inputPath) \<in> supportedExtensions"
    and m: "mkdir_recursive (disk w) (dirname outputPath) = Inr fs1"
  obtain r w2 where p: "probeOutput env outputPath clearOutput (w\<lparr>disk := fs1\<rparr>) = (r, w2)"
    by (cases "probeOutput env outputPath clearOutput (w\<lparr>disk := fs1\<rparr>)")
  define w' where "w' = snd (convertSingleFile env inputPath outputPath clearOutput w)"
  have "lookup (disk w') q = Some Dir" if q: "prefix q (dirname outputPath)" for q
  proof -
    have 1: "lookup fs1 q = Some Dir"
      using mkdir_recursive_made[OF m] q by (simp add: list_all_iff in_set_prefixes)
    have 2: "q \<noteq> outputPath \<or> q = []"
      using prefix_butlast_neq[of q outputPath] q by (simp add: dirname_def)
    have 3: "lookup (disk w2) q = Some Dir"
      using probeOutput_disk[OF p] 1 2 by (auto simp: lookup_delete)
    from convertSingleFile_cases[OF s m p]
    consider "w' = w2"
      | "convertAndWrite env inputPath outputPath w2 = (fst (convertAndWrite env inputPath outputPath w2), w')"
      unfolding w'_def by auto
    then show ?thesis
    proof cases
      case 1
      with 3 show ?thesis by simp
    next
      case 2
      from convertAndWrite_lookup_keep[OF 2 3] \<open>q \<noteq> outputPath \<or> q = []\<close>
      show ?thesis by simp
    qed
  qed
  then show "list_all (\<lambda>q. lookup (disk (snd (convertSingleFile env inputPath outputPath
                                               clearOutput w))) q = Some Dir)
             (prefixes (dirname outputPath))"
    by (simp add: list_all_iff in_set_prefixes w'_def)
next
  fix fs1 n
  assume s: "extname (name_of inputPath) \<in> supportedExtensions"
    and m: "mkdir_recursive (disk w) (dirname outputPath) = Inr fs1"
    and k: "\<not> clearOutput \<and> stat fs1 outputPath = Inr n \<and> n \<noteq> Dir"
  then have "probeOutput env outputPath clearOutput (w\<lparr>disk := fs1\<rparr>)
               = (Inr True, say (LogSkipping outputPath) (w\<lparr>disk := fs1\<rparr>))"
    using probeOutput_skip[of "w\<lparr>disk := fs1\<rparr>" outputPath n env] by simp
  with s m show "convertSingleFile env inputPath outputPath clearOutput w
                = (Inr (), say (LogSkipping outputPath) (w\<lparr>disk := fs1\<rparr>))"
    by (simp add: convertSingleFile_def)
qed


theorem parent_directory_created_witness:
  "lookup demo_disk [''new'', ''deep''] = None \<and>
   fst (convertSingleFile demo_env [''in'', ''b.pdf''] [''new'', ''deep'', ''b.md''] False
          (demo_world demo_disk)) = Inl (PdfParseError ''bad pdf'') \<and>
   lookup (disk (snd (convertSingleFile demo_env [''in'', ''b.pdf'']
                        [''new'', ''deep'', ''b.md''] False (demo_world demo_disk))))
     [''new'', ''deep''] = Some Dir \<and>
   convertSingleFile demo_env [''in'', ''notes.txt''] [''new'', ''deep'', ''n.md''] False
       (demo_world demo_disk)
     = (Inl (UnsupportedInputFile [''in'', ''notes.txt'']), demo_world demo_disk)"
proof -
  have a: "lookup demo_disk [''new'', ''deep''] = None"
    by (simp add: demo_disk_def lookup_def)
  have s: "extname (name_of [''in'', ''b.pdf'']) \<in> supportedExtensions"
    by (simp add: string_eval name_of_def)
  have u: "extname (name_of [''in'', ''notes.txt'']) \<notin> supportedExtensions"
    by (simp add: string_eval name_of_def)
  have m: "mkdir_recursive (disk (demo_world demo_disk)) (dirname [''new'', ''deep'', ''b.md''])
             = Inr (demo_disk @ [([''new''], Dir), ([''new'', ''deep''], Dir)])"
    by (simp add: demo_world_def demo_disk_def fs_eval)
  have f: "fst (convertSingleFile demo_env [''in'', ''b.pdf''] [''new'', ''deep'', ''b.md''] False
          (demo_world demo_disk)) = Inl (PdfParseError ''bad pdf'')"
    by (simp add: demo_world_def demo_disk_def demo_env_def fs_eval string_eval convert_eval)
  from s m
    parent_directory_created[of "[''in'', ''b.pdf'']" demo_env "[''new'', ''deep'', ''b.md'']"
      False "demo_world demo_disk"]
  have "list_all (\<lambda>q. lookup (disk (snd (convertSingleFile demo_env [''in'', ''b.pdf'']
                        [''new'', ''deep'', ''b.md''] False (demo_world demo_disk)))) q = Some Dir)
          (prefixes (dirname [''new'', ''deep'', ''b.md'']))"
    by blast
  then have d: "lookup (disk (snd (convertSingleFile demo_env [''in'', ''b.pdf'']
                        [''new'', ''deep'', ''b.md''] False (demo_world demo_disk))))
     [''new'', ''deep''] = Some Dir"
    by (simp add: dirname_def)
  from u
    parent_directory_created[of "[''in'', ''notes.txt'']" demo_env "[''new'', ''deep'', ''n.md'']"
      False "demo_world demo_disk"]
  have n: "convertSingleFile demo_env [''in'', ''notes.txt''] [''new'', ''deep'', ''n.md''] False
       (demo_world demo_disk)
     = (Inl (UnsupportedInputFile [''in'', ''notes.txt'']), demo_world demo_disk)"
    by blast
  from a f d n show ?thesis by simp
qed

subsection \<open>The loop of convertDirectory\<close>

lemma prepareTarget_Inl:
  "prepareTarget env c t w = Inl w' \<Longrightarrow>
   \<not> c \<and> (w' = say (LogSkipping t) w \<or> (\<exists>e. w' = say (ErrProbe t e) w))"
  by (auto simp: prepareTarget_def split: if_splits sum.splits)

lemma prepareTarget_Inr:
  "prepareTarget env c t w = Inr w1 \<Longrightarrow>
   console w1 = console w \<and> exitCode w1 = exitCode w \<and> adapterCalls w1 = adapterCalls w \<and>
   (if c then disk w1 = disk w \<or> disk w1 = AList.delete t (disk w)
    else w1 = w \<and> access (disk w) t = Inl ENOENT)"
  by (auto simp: prepareTarget_def rm_force_def split: if_splits sum.splits node.splits)







subsection \<open>A run without clearOutput changes nothing that exists\<close>

lemma access_ENOENT: "access fs p = Inl ENOENT \<Longrightarrow> lookup fs p = None"
  by (auto simp: access_def stat_def split: sum.splits if_splits option.splits)

lemma access_Inr_iff: "access fs p = Inr () \<longleftrightarrow> \<not> notdir_above fs p \<and> lookup fs p \<noteq> None"
  by (auto simp: access_def stat_def split: sum.splits if_splits option.splits)

lemma targetPath_notdir:
  "list_all (\<lambda>q. lookup fs q = Some Dir) (prefixes outputDir) \<Longrightarrow>
   \<not> notdir_above fs (targetPath outputDir entry)"
  by (auto simp: targetPath_def path_join_def notdir_above_snoc list_all_iff in_set_prefixes)

lemma convertEntry_skip:
  "access (disk w) (targetPath outputDir entry) = Inr () \<Longrightarrow>
   convertEntry env inputDir outputDir False entry w
     = say (LogSkipping (targetPath outputDir entry)) w"
  by (simp add: convertEntry_def prepareTarget_def)

lemma convertEntry_mono:
  assumes "lookup (disk w) q = Some n"
  shows "lookup (disk (convertEntry env inputDir outputDir False entry w)) q = Some n"
proof (cases "prepareTarget env False (targetPath outputDir entry) w")
  case (Inl w')
  from prepareTarget_Inl[OF this] Inl assms show ?thesis
    by (auto simp: convertEntry_def say_def)
next
  case (Inr w1)
  from prepareTarget_Inr[OF Inr] have w1: "w1 = w"
    and "access (disk w) (targetPath outputDir entry) = Inl ENOENT" by auto
  then have "lookup (disk w) (targetPath outputDir entry) = None" by (simp add: access_ENOENT)
  with assms have ne: "q \<noteq> targetPath outputDir entry" by auto
  obtain r w2 where c: "convertAndWrite env (sourcePath inputDir entry) (targetPath outputDir entry) w = (r, w2)"
    by (cases "convertAndWrite env (sourcePath inputDir entry) (targetPath outputDir entry) w")
  from convertAndWrite_lookup_keep[OF c assms] ne have "lookup (disk w2) q = Some n" by simp
  with c Inr w1 show ?thesis
    by (cases r) (auto simp: convertEntry_def say_def)
qed

lemma convertEntries_mono:
  "lookup (disk w) q = Some n \<Longrightarrow>
   lookup (disk (convertEntries env inputDir outputDir False es w)) q = Some n"
  by (induction es arbitrary: w) (auto simp: convertEntry_mono)



lemma convertEntries_skip_all:
  "list_all (\<lambda>entry. access (disk w) (targetPath outputDir entry) = Inr ()) es \<Longrightarrow>
   convertEntries env inputDir outputDir False es w
     = w\<lparr>console := console w @ map (\<lambda>entry. LogSkipping (targetPath outputDir entry)) es\<rparr>"
proof (induction es arbitrary: w)
  case Nil
  then show ?case by simp
next
  case (Cons entry es)
  then have a: "access (disk w) (targetPath outputDir entry) = Inr ()"
    and b: "list_all (\<lambda>x. access (disk (say (LogSkipping (targetPath outputDir entry)) w))
                       (targetPath outputDir x) = Inr ()) es"
    by (simp_all add: say_def)
  from Cons.IH[OF b] convertEntry_skip[OF a, of env inputDir] show ?case
    by (simp add: say_def)
qed

lemma mkdir_recursive_mono:
  "mkdir_recursive fs d = Inr fs2 \<Longrightarrow> lookup fs q = Some n \<Longrightarrow> lookup fs2 q = Some n"
  by (simp add: mkdir_recursive_lookup)

lemma convertDirectory_False_mono:
  assumes "lookup (disk w) q = Some n"
  shows "lookup (disk (snd (convertDirectory env inputDir outputDir False w))) q = Some n"
proof (cases "mkdir_recursive (disk w) outputDir")
  case (Inl e)
  with assms show ?thesis by (simp add: convertDirectory_def)
next
  case (Inr fs2)
  from mkdir_recursive_mono[OF Inr assms] have 2: "lookup fs2 q = Some n" .
  show ?thesis
  proof (cases "readdir fs2 inputDir")
    case (Inl e)
    with Inr 2 show ?thesis by (simp add: convertDirectory_def)
  next
    case r: (Inr entries)
    show ?thesis
    proof (cases "eligible entries = []")
      case True
      with Inr r 2 show ?thesis by (simp add: convertDirectory_def say_def)
    next
      case False
      have "lookup (disk (convertEntries env inputDir outputDir False (eligible entries)
                            (w\<lparr>disk := fs2\<rparr>))) q = Some n"
        by (rule convertEntries_mono) (simp add: 2)
      with Inr r False show ?thesis by (simp add: convertDirectory_def)
    qed
  qed
qed

lemma rm_recursive_contents:
  "rm_recursive fs p = Inr fs1 \<Longrightarrow> contents fs1 \<subseteq>\<^sub>m contents fs"
  by (auto simp: rm_recursive_def contents_def map_le_def lookup_rm dom_def
           split: if_splits option.splits node.splits)

text \<open>
  C7: in directory mode, when clearing and creating the output directory and reading the
  input directory succeed and the input directory has no eligible file, the run warns
  and returns successfully, \<open>main\<close> leaves the exit code as it was (0), every regular file
  present afterwards was there before with the same contents, \<open>convertDocument\<close> is not
  invoked, and the output directory exists.
\<close>

theorem empty_directory:
  assumes "(if clearOutput then rm_recursive (disk w) outputDir else Inr (disk w)) = Inr fs1"
      and "mkdir_recursive fs1 outputDir = Inr fs2"
      and "readdir fs2 inputDir = Inr entries"
      and "eligible entries = []"
  shows "convertDirectory env inputDir outputDir clearOutput w
           = (Inr (), say (WarnNoSupportedFiles inputDir) (w\<lparr>disk := fs2\<rparr>)) \<and>
         contents fs2 \<subseteq>\<^sub>m contents (disk w) \<and>
         lookup fs2 outputDir = Some Dir \<and>
         adapterCalls (snd (convertDirectory env inputDir outputDir clearOutput w))
           = adapterCalls w \<and>
         (stat (disk w) inputDir = Inr Dir \<longrightarrow>
            main env inputDir outputDir clearOutput w
              = say (WarnNoSupportedFiles inputDir) (w\<lparr>disk := fs2\<rparr>) \<and>
            exitCode (main env inputDir outputDir clearOutput w) = exitCode w)"
proof -
  have 1: "convertDirectory env inputDir outputDir clearOutput w
           = (Inr (), say (WarnNoSupportedFiles inputDir) (w\<lparr>disk := fs2\<rparr>))"
    using assms by (cases clearOutput) (simp_all add: convertDirectory_def)
  have "contents fs1 \<subseteq>\<^sub>m contents (disk w)"
    using assms(1) by (cases clearOutput) (auto dest: rm_recursive_contents)
  with mkdir_recursive_contents[OF assms(2)]
  have 2: "contents fs2 \<subseteq>\<^sub>m contents (disk w)" by simp
  have 3: "lookup fs2 outputDir = Some Dir"
    using mkdir_recursive_made[OF assms(2)] by (simp add: list_all_iff in_set_prefixes)
  have 4: "main env inputDir outputDir clearOutput w
              = say (WarnNoSupportedFiles inputDir) (w\<lparr>disk := fs2\<rparr>) \<and>
            exitCode (main env inputDir outputDir clearOutput w) = exitCode w"
    if "stat (disk w) inputDir = Inr Dir"
    using that 1 by (simp add: main_def say_def)
  from 1 2 3 4 show ?thesis by (simp add: say_def)
qed


theorem empty_directory_witness:
  "readdir (notes_disk @ [([''res''], Dir)]) [''docs'']
     = Inr [Dirent ''notes.txt'' True, Dirent ''sub.docx'' False] \<and>
   eligible [Dirent ''notes.txt'' True, Dirent ''sub.docx'' False] = [] \<and>
   lookup notes_disk [''res''] = None \<and>
   main demo_env [''docs''] [''res''] False (demo_world notes_disk)
     = \<lparr>disk = notes_disk @ [([''res''], Dir)],
        console = [WarnNoSupportedFiles [''docs'']], exitCode = 0, adapterCalls = []\<rparr>"
proof -
  have 1: "(if False then rm_recursive (disk (demo_world notes_disk)) [''res'']
            else Inr (disk (demo_world notes_disk))) = Inr notes_disk"
    by (simp add: demo_world_def)
  have 2: "mkdir_recursive notes_disk [''res''] = Inr (notes_disk @ [([''res''], Dir)])"
    by (simp add: notes_disk_def fs_eval)
  have 3: "readdir (notes_disk @ [([''res''], Dir)]) [''docs'']
     = Inr [Dirent ''notes.txt'' True, Dirent ''sub.docx'' False]"
    by (simp add: notes_disk_def fs_eval)
  have 4: "eligible [Dirent ''notes.txt'' True, Dirent ''sub.docx'' False] = []"
    by (simp add: eligible_def string_eval)
  have 5: "stat (disk (demo_world notes_disk)) [''docs''] = Inr Dir"
    by (simp add: demo_world_def notes_disk_def fs_eval)
  have 6: "lookup notes_disk [''res''] = None"
    by (simp add: notes_disk_def lookup_def)
  from empty_directory[OF 1 2 3 4, of demo_env] 5
  have "main demo_env [''docs''] [''res''] False (demo_world notes_disk)
          = say (WarnNoSupportedFiles [''docs''])
              ((demo_world notes_disk)\<lparr>disk := notes_disk @ [([''res''], Dir)]\<rparr>)"
    by blast
  with 3 4 6 show ?thesis by (simp add: say_def demo_world_def)
qed




lemmas model_eval = fs_eval string_eval suffix_to_prefix Let_def convert_eval









text \<open>
  C4: a directory run without \<open>clearOutput\<close> removes and rewrites nothing that exists, so
  every output file present before the run is there afterwards with the same contents;
  this holds in particular for a second run on what the first one left. Every eligible
  file whose target exists when the run starts is skipped at its turn: the turn adds the
  skip line to the console and changes nothing else, so \<open>convertDocument\<close> is not invoked
  and the file is not rewritten. When the targets of all eligible files exist, the whole
  run only writes the skip lines: the file system is the one \<open>mkdir\<close> left, with the same
  regular files and contents as before.
\<close>

theorem directory_rerun_skips:
  "(\<forall>q n. lookup (disk w) q = Some n \<longrightarrow>
      lookup (disk (snd (convertDirectory env inputDir outputDir False w))) q = Some n \<and>
      lookup (disk (snd (convertDirectory env inputDir outputDir False
                           (snd (convertDirectory env inputDir outputDir False w))))) q
        = Some n) \<and>
   (\<forall>fs2 entries.
      mkdir_recursive (disk w) outputDir = Inr fs2 \<and> readdir fs2 inputDir = Inr entries \<longrightarrow>
      (\<forall>xs entry ys.
         eligible entries = xs @ entry # ys \<and>
         access (disk w) (targetPath outputDir entry) = Inr () \<longrightarrow>
         convertEntry env inputDir outputDir False entry
             (convertEntries env inputDir outputDir False xs (w\<lparr>disk := fs2\<rparr>))
           = say (LogSkipping (targetPath outputDir entry))
               (convertEntries env inputDir outputDir False xs (w\<lparr>disk := fs2\<rparr>))) \<and>
      (eligible entries \<noteq> [] \<and>
       list_all (\<lambda>entry. access (disk w) (targetPath outputDir entry) = Inr ())
         (eligible entries) \<longrightarrow>
         snd (convertDirectory env inputDir outputDir False w)
           = w\<lparr>disk := fs2,
               console := console w @
                 map (\<lambda>entry. LogSkipping (targetPath outputDir entry)) (eligible entries)\<rparr> \<and>
         contents fs2 = contents (disk w)))"
proof (intro conjI allI impI)
  fix q n
  assume l: "lookup (disk w) q = Some n"
  then show 1: "lookup (disk (snd (convertDirectory env inputDir outputDir False w))) q = Some n"
    by (rule convertDirectory_False_mono)
  then show "lookup (disk (snd (convertDirectory env inputDir outputDir False
                           (snd (convertDirectory env inputDir outputDir False w))))) q
        = Some n"
    by (rule convertDirectory_False_mono)
next
  fix fs2 entries xs entry ys
  assume s: "mkdir_recursive (disk w) outputDir = Inr fs2 \<and> readdir fs2 inputDir = Inr entries"
    and e: "eligible entries = xs @ entry # ys \<and>
            access (disk w) (targetPath outputDir entry) = Inr ()"
  define wx where "wx = convertEntries env inputDir outputDir False xs (w\<lparr>disk := fs2\<rparr>)"
  have keep: "lookup (disk wx) q = Some n" if "lookup fs2 q = Some n" for q n
    unfolding wx_def by (rule convertEntries_mono) (simp add: that)
  from s have m: "mkdir_recursive (disk w) outputDir = Inr fs2" by simp
  from e obtain n where "lookup (disk w) (targetPath outputDir entry) = Some n"
    by (auto simp: access_Inr_iff)
  then have "lookup (disk wx) (targetPath outputDir entry) = Some n"
    by (intro keep mkdir_recursive_mono[OF m])
  moreover have "list_all (\<lambda>q. lookup (disk wx) q = Some Dir) (prefixes outputDir)"
    using mkdir_recursive_made[OF m] keep by (simp add: list_all_iff)
  then have "\<not> notdir_above (disk wx) (targetPath outputDir entry)"
    by (rule targetPath_notdir)
  ultimately have "access (disk wx) (targetPath outputDir entry) = Inr ()"
    by (simp add: access_Inr_iff)
  then show "convertEntry env inputDir outputDir False entry
             (convertEntries env inputDir outputDir False xs (w\<lparr>disk := fs2\<rparr>))
           = say (LogSkipping (targetPath outputDir entry))
               (convertEntries env inputDir outputDir False xs (w\<lparr>disk := fs2\<rparr>))"
    unfolding wx_def[symmetric] by (rule convertEntry_skip)
next
  fix fs2 entries
  assume s: "mkdir_recursive (disk w) outputDir = Inr fs2 \<and> readdir fs2 inputDir = Inr entries"
    and a: "eligible entries \<noteq> [] \<and>
            list_all (\<lambda>entry. access (disk w) (targetPath outputDir entry) = Inr ())
              (eligible entries)"
  from s have m: "mkdir_recursive (disk w) outputDir = Inr fs2" by simp
  have made: "list_all (\<lambda>q. lookup fs2 q = Some Dir) (prefixes outputDir)"
    by (rule mkdir_recursive_made[OF m])
  have "access fs2 (targetPath outputDir entry) = Inr ()"
    if "access (disk w) (targetPath outputDir entry) = Inr ()" for entry
  proof -
    from that obtain n where "lookup (disk w) (targetPath outputDir entry) = Some n"
      by (auto simp: access_Inr_iff)
    from mkdir_recursive_mono[OF m this] targetPath_notdir[OF made, of entry]
    show ?thesis by (simp add: access_Inr_iff)
  qed
  with a have "list_all (\<lambda>entry. access (disk (w\<lparr>disk := fs2\<rparr>)) (targetPath outputDir entry) = Inr ())
                 (eligible entries)"
    by (simp add: list_all_iff)
  from convertEntries_skip_all[OF this, of env inputDir] s a
  show "snd (convertDirectory env inputDir outputDir False w)
           = w\<lparr>disk := fs2,
               console := console w @
                 map (\<lambda>entry. LogSkipping (targetPath outputDir entry)) (eligible entries)\<rparr>"
    by (simp add: convertDirectory_def)
  show "contents fs2 = contents (disk w)"
    by (rule mkdir_recursive_contents[OF m])
qed

lemma rerun_setup:
  "mkdir_recursive (disk (demo_world rerun_disk)) [''res''] = Inr rerun_disk \<and>
   readdir rerun_disk [''in''] = Inr [Dirent ''a.docx'' True, Dirent ''b.pdf'' True]"
  "eligible [Dirent ''a.docx'' True, Dirent ''b.pdf'' True]
     = [] @ Dirent ''a.docx'' True # [Dirent ''b.pdf'' True] \<and>
   access (disk (demo_world rerun_disk)) (targetPath [''res''] (Dirent ''a.docx'' True)) = Inr ()"
  "lookup (disk (demo_world rerun_disk)) [''res'', ''a.md''] = Some (File ''edited by hand'')"
  "targetPath [''res''] (Dirent ''a.docx'' True) = [''res'', ''a.md'']"
  by (simp_all add: demo_world_def rerun_disk_def fs_eval eligible_def string_eval
        targetPath_def suffix_to_prefix)

lemma rerun_turn_b:
  "convertEntry demo_env [''in''] [''res''] False (Dirent ''b.pdf'' True)
     \<lparr>disk = rerun_disk, console = [LogSkipping [''res'', ''a.md'']], exitCode = 0,
      adapterCalls = []\<rparr>
   = \<lparr>disk = rerun_disk,
      console = [LogSkipping [''res'', ''a.md''],
                 ErrConvert [''in'', ''b.pdf''] (PdfParseError ''bad pdf'')],
      exitCode = 0, adapterCalls = [[''in'', ''b.pdf'']]\<rparr>"
  by (simp add: rerun_disk_def demo_env_def model_eval)

theorem directory_rerun_skips_witness:
  "lookup (disk (demo_world rerun_disk)) [''res'', ''a.md''] = Some (File ''edited by hand'') \<and>
   lookup (disk (snd (convertDirectory demo_env [''in''] [''res''] False (demo_world rerun_disk))))
     [''res'', ''a.md''] = Some (File ''edited by hand'') \<and>
   convertEntry demo_env [''in''] [''res''] False (Dirent ''a.docx'' True)
       \<lparr>disk = rerun_disk, console = [], exitCode = 0, adapterCalls = []\<rparr>
     = \<lparr>disk = rerun_disk, console = [LogSkipping [''res'', ''a.md'']], exitCode = 0,
        adapterCalls = []\<rparr> \<and>
   snd (convertDirectory demo_env [''in''] [''res''] False (demo_world rerun_disk))
     = \<lparr>disk = rerun_disk,
        console = [LogSkipping [''res'', ''a.md''],
                   ErrConvert [''in'', ''b.pdf''] (PdfParseError ''bad pdf'')],
        exitCode = 0, adapterCalls = [[''in'', ''b.pdf'']]\<rparr>"
proof -
  note t = directory_rerun_skips[of "demo_world rerun_disk" demo_env "[''in'']" "[''res'']"]
  have w0: "(demo_world rerun_disk)\<lparr>disk := rerun_disk\<rparr>
              = \<lparr>disk = rerun_disk, console = [], exitCode = 0, adapterCalls = []\<rparr>"
    by (simp add: demo_world_def)
  from t rerun_setup(3)
  have a: "lookup (disk (snd (convertDirectory demo_env [''in''] [''res''] False
                                (demo_world rerun_disk)))) [''res'', ''a.md'']
             = Some (File ''edited by hand'')"
    by blast
  from t rerun_setup(1,2)
  have "convertEntry demo_env [''in''] [''res''] False (Dirent ''a.docx'' True)
             (convertEntries demo_env [''in''] [''res''] False []
                ((demo_world rerun_disk)\<lparr>disk := rerun_disk\<rparr>))
           = say (LogSkipping (targetPath [''res''] (Dirent ''a.docx'' True)))
               (convertEntries demo_env [''in''] [''res''] False []
                  ((demo_world rerun_disk)\<lparr>disk := rerun_disk\<rparr>))"
    by blast
  then have b: "convertEntry demo_env [''in''] [''res''] False (Dirent ''a.docx'' True)
       \<lparr>disk = rerun_disk, console = [], exitCode = 0, adapterCalls = []\<rparr>
     = \<lparr>disk = rerun_disk, console = [LogSkipping [''res'', ''a.md'']], exitCode = 0,
        adapterCalls = []\<rparr>"
    by (simp add: w0 rerun_setup(4) say_def)
  have "snd (convertDirectory demo_env [''in''] [''res''] False (demo_world rerun_disk))
          = convertEntries demo_env [''in''] [''res''] False
              [Dirent ''a.docx'' True, Dirent ''b.pdf'' True]
              ((demo_world rerun_disk)\<lparr>disk := rerun_disk\<rparr>)"
    using rerun_setup(1,2) by (simp add: convertDirectory_def)
  then have c: "snd (convertDirectory demo_env [''in''] [''res''] False (demo_world rerun_disk))
     = \<lparr>disk = rerun_disk,
        console = [LogSkipping [''res'', ''a.md''],
                   ErrConvert [''in'', ''b.pdf''] (PdfParseError ''bad pdf'')],
        exitCode = 0, adapterCalls = [[''in'', ''b.pdf'']]\<rparr>"
    by (simp only: w0 convertEntries.simps b rerun_turn_b)
  from rerun_setup(3) a b c show ?thesis by simp
qed


subsection \<open>The DOC pipeline\<close>

lemma convertDocument_docx:
  "toLowerCase (extname (name_of filePath)) = ''.docx'' \<Longrightarrow>
   fst (convertDocument env filePath w) = convertDocxToMarkdown env (disk w) filePath \<and>
   disk (snd (convertDocument env filePath w)) = disk w"
  by (simp add: convertDocument_def Let_def)

lemma convertDocxToMarkdown_same_bytes:
  "readFile fs p = readFile fs' p' \<Longrightarrow>
   convertDocxToMarkdown env fs p = convertDocxToMarkdown env fs' p'"
  by (simp add: convertDocxToMarkdown_def)

lemma tempDir_removable:
  assumes "stat fs (tmpdir env) = Inr Dir"
      and "ex = [(tempDirName env fs, Dir)] \<or>
           (\<exists>n c. ex = [(tempDirName env fs, Dir), (path_join (tempDirName env fs) n, File c)])"
  shows "\<not> notdir_above (fs @ ex) (tempDirName env fs)"
proof -
  obtain x where t: "tempDirName env fs = tmpdir env @ [x]"
    by (simp add: tempDirName_def path_join_def)
  have ok: "lookup (fs @ ex) q = None \<or> lookup (fs @ ex) q = Some Dir"
    if q: "prefix q (tmpdir env)" for q
  proof -
    from q have len: "length q \<le> length (tmpdir env)" by (rule prefix_length_le)
    have 1: "q \<noteq> tmpdir env @ [x]" using len by auto
    have 2: "q \<noteq> (tmpdir env @ [x]) @ [n]" for n using len by auto
    from assms(2) have ex: "map_of ex q = None"
    proof
      assume "ex = [(tempDirName env fs, Dir)]"
      with 1 show ?thesis by (simp add: t)
    next
      assume "\<exists>n c. ex = [(tempDirName env fs, Dir), (path_join (tempDirName env fs) n, File c)]"
      then obtain n c where "ex = [(tmpdir env @ [x], Dir), ((tmpdir env @ [x]) @ [n], File c)]"
        by (auto simp: t path_join_def)
      with 1 2[of n] show ?thesis by simp
    qed
    from stat_Inr_lookup[OF assms(1)]
    have d: "lookup fs (tmpdir env) = Some Dir" and nd: "\<not> notdir_above fs (tmpdir env)"
      by auto
    have "lookup fs q = None \<or> lookup fs q = Some Dir"
    proof (cases "q = tmpdir env")
      case True
      with d show ?thesis by simp
    next
      case False
      with q have "strict_prefix q (tmpdir env)" by (simp add: strict_prefix_def)
      with nd show ?thesis by (auto simp: notdir_above_iff)
    qed
    with ex show ?thesis by (auto simp: lookup_append)
  qed
  have "\<not> notdir_above (fs @ ex) (tmpdir env @ [x])"
  proof
    assume "notdir_above (fs @ ex) (tmpdir env @ [x])"
    then obtain q where "prefix q (tmpdir env)" and "lookup (fs @ ex) q \<noteq> None"
      and "lookup (fs @ ex) q \<noteq> Some Dir"
      unfolding notdir_above_snoc by blast
    with ok[of q] show False by simp
  qed
  then show ?thesis unfolding t .
qed

lemma doc_conversion_cleans_up:
  assumes "toLowerCase (extname (name_of filePath)) = ''.doc''"
      and "convertDocToDocx env filePath (w\<lparr>adapterCalls := adapterCalls w @ [filePath]\<rparr>)
             = (Inr (docxPath, tempDir), w1)"
  shows "fst (convertDocument env filePath w) = convertDocxToMarkdown env (disk w1) docxPath \<and>
         disk (snd (convertDocument env filePath w)) = disk w \<and>
         lookup (disk w1) tempDir = Some Dir \<and>
         lookup (disk (snd (convertDocument env filePath w))) tempDir = None"
proof -
  define t where "t = tempDirName env (disk w)"
  from convertDocToDocx_effect(2)[OF assms(2)]
  have fresh: "\<not> list_ex (\<lambda>(q, _). prefix t q) (disk w)"
    and st: "stat (disk w) (tmpdir env) = Inr Dir"
    and shape: "disk w1 = disk w @ [(t, Dir)] \<or>
                (\<exists>n c. disk w1 = disk w @ [(t, Dir), (path_join t n, File c)])"
    and t: "tempDir = t"
    by (auto simp: t_def)
  from shape obtain ex where ex: "disk w1 = disk w @ ex"
    and exs: "ex = [(t, Dir)] \<or> (\<exists>n c. ex = [(t, Dir), (path_join t n, File c)])"
    and all: "list_all (\<lambda>(q, _). prefix t q) ex"
    by (auto simp: path_join_def)
  have "\<not> notdir_above (disk w1) t"
    unfolding ex t_def by (rule tempDir_removable[OF st exs[unfolded t_def]])
  then have rm: "rm_recursive (disk w1) t = Inr (disk w)"
    unfolding rm_recursive_def ex using rm_fresh[OF fresh all] by simp
  have none: "lookup (disk w) t = None"
    using fresh_lookup[OF fresh, of t] by (simp add: t_def)
  have made: "lookup (disk w1) t = Some Dir"
    using exs none unfolding ex by (auto simp: lookup_append)
  from assms rm t have "convertDocument env filePath w
                          = (convertDocxToMarkdown env (disk w1) docxPath, w1\<lparr>disk := disk w\<rparr>)"
    by (simp add: convertDocument_def Let_def)
  with none made t show ?thesis by simp
qed

lemma doc_failure_leaves_tempDir:
  assumes "toLowerCase (extname (name_of filePath)) = ''.doc''"
      and "mkdtemp env (disk w) = Inr (tempDir, fs1)"
      and "runLibreOfficeConversion env filePath tempDir fs1 = (Inl e, fs2)"
  shows "fst (convertDocument env filePath w) = Inl e \<and>
         lookup (disk w) tempDir = None \<and>
         lookup (disk (snd (convertDocument env filePath w))) tempDir = Some Dir"
proof -
  from mkdtemp_Inr[OF assms(2)]
  have t: "tempDir = tempDirName env (disk w)" and fs1: "fs1 = disk w @ [(tempDir, Dir)]"
    and fresh: "\<not> list_ex (\<lambda>(q, _). prefix tempDir q) (disk w)"
    by auto
  from t have ne: "tempDir \<noteq> []" by simp
  have none: "lookup (disk w) tempDir = None"
    by (rule fresh_lookup[OF fresh _ ne]) simp
  have 1: "lookup fs1 tempDir = Some Dir"
    using none by (simp add: fs1 lookup_append)
  have "lookup fs2 tempDir = Some Dir"
    using runLibreOfficeConversion_disk[OF assms(3)] 1
    by (auto simp: lookup_update path_join_def)
  moreover have "convertDocument env filePath w
                   = (Inl e, w\<lparr>adapterCalls := adapterCalls w @ [filePath], disk := fs2\<rparr>)"
    using assms by (simp add: convertDocument_def convertDocToDocx_def Let_def)
  ultimately show ?thesis using none by simp
qed

text \<open>
  C2: a .doc input whose \<open>soffice\<close> run exits with code 1. \<open>convertDocToDocx\<close> has made the
  temporary directory and throws before it returns the \<open>cleanup\<close> closure, which
  \<open>convertDocument\<close> therefore never calls: the call fails and the temporary directory,
  absent before, is still there afterwards. This is so for every failure of the
  \<open>soffice\<close> run (\<open>doc_failure_leaves_tempDir\<close>). When \<open>convertDocToDocx\<close> succeeds, the
  .docx it returns is converted as any .docx is and the directory is removed whatever that
  conversion gives (\<open>doc_conversion_cleans_up\<close>).
\<close>

theorem temp_directory_left_behind:
  "lookup leak_disk [''tmp'', ''input-docx-Ab12Cd''] = None \<and>
   convertDocument demo_env [''in'', ''d.doc''] (demo_world leak_disk)
     = (Inl (LibreOfficeFailed (ExitCode (Some 1))),
        \<lparr>disk = leak_disk @ [([''tmp'', ''input-docx-Ab12Cd''], Dir)],
         console = [], exitCode = 0, adapterCalls = [[''in'', ''d.doc'']]\<rparr>) \<and>
   lookup (disk (snd (convertDocument demo_env [''in'', ''d.doc''] (demo_world leak_disk))))
     [''tmp'', ''input-docx-Ab12Cd''] = Some Dir"
proof -
  have 1: "lookup leak_disk [''tmp'', ''input-docx-Ab12Cd''] = None"
    by (simp add: leak_disk_def lookup_def)
  have 2: "convertDocument demo_env [''in'', ''d.doc''] (demo_world leak_disk)
     = (Inl (LibreOfficeFailed (ExitCode (Some 1))),
        \<lparr>disk = leak_disk @ [([''tmp'', ''input-docx-Ab12Cd''], Dir)],
         console = [], exitCode = 0, adapterCalls = [[''in'', ''d.doc'']]\<rparr>)"
    by (simp add: demo_world_def leak_disk_def demo_env_def model_eval)
  have 3: "lookup (leak_disk @ [([''tmp'', ''input-docx-Ab12Cd''], Dir)])
             [''tmp'', ''input-docx-Ab12Cd''] = Some Dir"
    by (simp add: leak_disk_def lookup_def)
  from 1 2 3 show ?thesis by simp
qed


theorem pdf_reformat_witness:
  "readFile lines_disk [''in'', ''lines.pdf''] = Inr ''Line A\<newline>\<newline>  \<newline>Line B  \<newline>'' \<and>
   pdfGetText demo_env ''Line A\<newline>\<newline>  \<newline>Line B  \<newline>'' = Inr ''Line A\<newline>\<newline>  \<newline>Line B  \<newline>'' \<and>
   convertPdfToMarkdown demo_env lines_disk [''in'', ''lines.pdf''] = Inr ''Line A\<newline>\<newline>Line B'' \<and>
   fst (convertDocument demo_env [''in'', ''lines.pdf''] (demo_world lines_disk))
     = Inr ''Line A\<newline>\<newline>Line B''"
proof -
  have 1: "readFile lines_disk [''in'', ''lines.pdf''] = Inr ''Line A\<newline>\<newline>  \<newline>Line B  \<newline>''"
    by (simp add: lines_disk_def fs_eval)
  have 2: "pdfGetText demo_env ''Line A\<newline>\<newline>  \<newline>Line B  \<newline>'' = Inr ''Line A\<newline>\<newline>  \<newline>Line B  \<newline>''"
    by (simp add: demo_env_def)
  have 3: "toLowerCase (extname (name_of [''in'', ''lines.pdf''])) = ''.pdf''"
    by (simp add: string_eval name_of_def)
  have 4: "readFile (disk (demo_world lines_disk)) [''in'', ''lines.pdf'']
             = Inr ''Line A\<newline>\<newline>  \<newline>Line B  \<newline>''"
    using 1 by (simp add: demo_world_def)
  note T = pdf_reformat[of lines_disk "[''in'', ''lines.pdf'']" demo_env "demo_world lines_disk"
             "''Line A\<newline>\<newline>  \<newline>Line B  \<newline>''"]
  note s = trans[OF sym[OF T[THEN conjunct2, THEN conjunct2, THEN conjunct1]]
                    T[THEN conjunct2, THEN conjunct2, THEN conjunct2]]
  from T[THEN conjunct1, rule_format, OF 1 2]
  have a: "convertPdfToMarkdown demo_env lines_disk [''in'', ''lines.pdf''] = Inr ''Line A\<newline>\<newline>Line B''"
    by (simp only: s)
  from T[THEN conjunct2, THEN conjunct1, rule_format, OF 3 4 2]
  have b: "fst (convertDocument demo_env [''in'', ''lines.pdf''] (demo_world lines_disk))
     = Inr ''Line A\<newline>\<newline>Line B''"
    by (simp only: s)
  from 1 2 a b show ?thesis by (intro conjI)
qed





end
